theory Spec2Isabelle
  imports Complex_Main "HOL-Library.Log_Nat" "HOL-Library.AList"
begin

chapter \<open>Smilefjeskart: the tilsyn pipeline and the smile score of the map client\<close>

text \<open>
  The development embeds two parts of the repository:
  \<^item> \<^verbatim>\<open>src/scripts/build-tilsyn-geojson.ts\<close>: the batch job that reduces the
    inspection rows to the latest row per place, resolves an address through BRREG or the
    row's own address fields, geocodes it through Kartverket and writes GeoJSON features;
  \<^item> the map client (\<^verbatim>\<open>toNumberMaybe\<close> and \<^verbatim>\<open>computeSmileScore\<close>), which
    recomputes the displayed score from the properties of each feature.

  All definitions come first, the lemmas and the theorems about them follow.
\<close>

section \<open>JavaScript numbers and strings\<close>

text \<open>
  A JavaScript number is an IEEE double. A finite double is a rational number, so the
  finite values are \<open>Fin q\<close> with \<open>q\<close> the exact value; the three other values are
  \<open>NaN\<close> and the two infinities. The sign of zero is not kept (\<open>-0\<close> and \<open>0\<close>
  compare equal in every comparison the program makes).
\<close>

datatype jsnum = Fin rat | NaN | PInf | NInf

text \<open>The relational operators on numbers: every comparison with \<open>NaN\<close> is false.\<close>

fun js_lt :: "jsnum \<Rightarrow> jsnum \<Rightarrow> bool" where
  "js_lt NaN _ = False"
| "js_lt _ NaN = False"
| "js_lt (Fin a) (Fin b) = (a < b)"
| "js_lt NInf NInf = False"
| "js_lt NInf _ = True"
| "js_lt _ NInf = False"
| "js_lt PInf _ = False"
| "js_lt _ PInf = True"

definition js_gt :: "jsnum \<Rightarrow> jsnum \<Rightarrow> bool" where
  "js_gt a b = js_lt b a"

definition js_le :: "jsnum \<Rightarrow> jsnum \<Rightarrow> bool" where
  "js_le a b = (a \<noteq> NaN \<and> b \<noteq> NaN \<and> \<not> js_lt b a)"

definition js_ge :: "jsnum \<Rightarrow> jsnum \<Rightarrow> bool" where
  "js_ge a b = js_le b a"

text \<open>\<^verbatim>\<open>Number.isFinite\<close> on a number.\<close>

fun isFinite :: "jsnum \<Rightarrow> bool" where
  "isFinite (Fin _) = True"
| "isFinite _ = False"

text \<open>
  \<^verbatim>\<open>Math.max(...xs)\<close>: \<open>-Infinity\<close> for no argument, \<open>NaN\<close> as soon as one argument
  is \<open>NaN\<close>, the largest argument otherwise.
\<close>

definition max2 :: "jsnum \<Rightarrow> jsnum \<Rightarrow> jsnum" where
  "max2 a b = (if a = NaN \<or> b = NaN then NaN else if js_lt a b then b else a)"

definition Math_max :: "jsnum list \<Rightarrow> jsnum" where
  "Math_max xs = foldl max2 NInf xs"

text \<open>
  Strings are lists of characters. A HOL character is one byte, so the strings of the
  model are the JavaScript strings whose code units lie below 256 (Latin-1); \<open>length\<close>
  is then \<^verbatim>\<open>.length\<close>. The white space of \<^verbatim>\<open>trim\<close>, of \<^verbatim>\<open>\s\<close> and of the
  string-to-number conversion is, in that range, TAB, LF, VT, FF, CR, SP and NBSP.
\<close>

definition isWhiteSpace :: "char \<Rightarrow> bool" where
  "isWhiteSpace c = (of_char c \<in> {9, 10, 11, 12, 13, 32, 160 :: nat})"

definition trim :: "string \<Rightarrow> string" where
  "trim s = rev (dropWhile isWhiteSpace (rev (dropWhile isWhiteSpace s)))"

text \<open>\<^verbatim>\<open>xs.join(sep)\<close> on a list of strings.\<close>

fun join :: "string \<Rightarrow> string list \<Rightarrow> string" where
  "join sep [] = []"
| "join sep [x] = x"
| "join sep (x # y # ys) = x @ sep @ join sep (y # ys)"

text \<open>
  \<^verbatim>\<open>xs.filter(Boolean)\<close> on a list whose entries are strings or \<^verbatim>\<open>undefined\<close>: the
  non-empty strings stay.
\<close>

definition filterBoolean :: "string option list \<Rightarrow> string list" where
  "filterBoolean xs = concat (map (\<lambda>x. case x of None \<Rightarrow> [] | Some s \<Rightarrow> if s = [] then [] else [s]) xs)"

subsection \<open>The conversion \<^verbatim>\<open>Number(string)\<close>\<close>

text \<open>
  \<^verbatim>\<open>Number\<close> applied to a string follows the grammar \<^verbatim>\<open>StringNumericLiteral\<close> of
  ECMAScript: white space is stripped at both ends; the empty string is \<open>0\<close>; a literal is
  \<^verbatim>\<open>0x\<close>, \<^verbatim>\<open>0o\<close> or \<^verbatim>\<open>0b\<close> followed by digits of that base, or an optional sign
  followed by \<^verbatim>\<open>Infinity\<close> or by a decimal literal (digits, an optional fraction, an
  optional exponent); anything else is \<open>NaN\<close>. The mathematical value of the literal is
  rounded to the nearest double, ties to even, and overflows to an infinity.
\<close>

definition isDigit :: "char \<Rightarrow> bool" where
  "isDigit c = (48 \<le> (of_char c :: nat) \<and> (of_char c :: nat) \<le> 57)"

definition hexVal :: "char \<Rightarrow> int option" where
  "hexVal c = (let n = (of_char c :: int) in
     if 48 \<le> n \<and> n \<le> 57 then Some (n - 48)
     else if 97 \<le> n \<and> n \<le> 102 then Some (n - 87)
     else if 65 \<le> n \<and> n \<le> 70 then Some (n - 55)
     else None)"

definition isDigitOf :: "int \<Rightarrow> char \<Rightarrow> bool" where
  "isDigitOf b c = (case hexVal c of None \<Rightarrow> False | Some v \<Rightarrow> v < b)"

definition digitsVal :: "int \<Rightarrow> string \<Rightarrow> int" where
  "digitsVal b ds = foldl (\<lambda>a c. a * b + (case hexVal c of None \<Rightarrow> 0 | Some v \<Rightarrow> v)) 0 ds"

definition pow_int :: "rat \<Rightarrow> int \<Rightarrow> rat" where
  "pow_int b e = (if 0 \<le> e then b ^ nat e else 1 / b ^ nat (- e))"

text \<open>For \<open>0 < a\<close>, \<open>ilog2 a\<close> is the exponent \<open>e\<close> with \<open>2 ^ e \<le> a < 2 ^ (e + 1)\<close>.\<close>

definition ilog2 :: "rat \<Rightarrow> int" where
  "ilog2 a = (if 1 \<le> a then bitlen \<lfloor>a\<rfloor> - 1 else - bitlen (\<lceil>1 / a\<rceil> - 1))"

definition roundHalfEven :: "rat \<Rightarrow> int" where
  "roundHalfEven y = (let f = \<lfloor>y\<rfloor>; d = y - of_int f in
     if d < 1 / 2 then f else if 1 / 2 < d then f + 1 else if even f then f else f + 1)"

text \<open>
  Rounding to binary64: 53 significant bits, so the unit in the last place is
  \<open>2 ^ (e - 52)\<close> for a value of exponent \<open>e\<close>; the exponent is never taken below
  \<open>-1022\<close> (subnormal numbers); and the result is an infinity when the exponent is
  above 1023, or is 1023 and the rounding carries out of the 53 bits.
\<close>

definition roundDouble :: "rat \<Rightarrow> jsnum" where
  "roundDouble x = (if x = 0 then Fin 0 else
     let a = \<bar>x\<bar>;
         e = max (ilog2 a) (- 1022);
         u = pow_int 2 (e - 52);
         m = roundHalfEven (a / u)
     in if 1024 \<le> e \<or> (e = 1023 \<and> 2 ^ 53 \<le> m) then (if 0 < x then PInf else NInf)
        else Fin (if 0 < x then of_int m * u else - (of_int m * u)))"

definition parseExponent :: "string \<Rightarrow> int option" where
  "parseExponent s = (case s of
       [] \<Rightarrow> Some 0
     | c # r \<Rightarrow>
         if c = CHR ''e'' \<or> c = CHR ''E'' then
           (let neg = (r \<noteq> [] \<and> hd r = CHR ''-'');
                ds = (if r \<noteq> [] \<and> (hd r = CHR ''-'' \<or> hd r = CHR ''+'') then tl r else r)
            in if ds \<noteq> [] \<and> list_all isDigit ds
               then Some (if neg then - digitsVal 10 ds else digitsVal 10 ds)
               else None)
         else None)"

definition parseUnsignedDecimal :: "string \<Rightarrow> rat option" where
  "parseUnsignedDecimal s = (let
       ip = takeWhile isDigit s;
       r1 = dropWhile isDigit s;
       dot = (r1 \<noteq> [] \<and> hd r1 = CHR ''.'');
       fp = (if dot then takeWhile isDigit (tl r1) else []);
       r2 = (if dot then dropWhile isDigit (tl r1) else r1)
     in if ip = [] \<and> fp = [] then None
        else (case parseExponent r2 of
            None \<Rightarrow> None
          | Some e \<Rightarrow> Some (of_int (digitsVal 10 (ip @ fp)) * pow_int 10 (e - int (length fp)))))"

definition parseNonDecimal :: "int \<Rightarrow> string \<Rightarrow> jsnum" where
  "parseNonDecimal b ds =
     (if ds \<noteq> [] \<and> list_all (isDigitOf b) ds then roundDouble (of_int (digitsVal b ds)) else NaN)"

definition Number_str :: "string \<Rightarrow> jsnum" where
  "Number_str s = (let t = trim s in
     if t = [] then Fin 0
     else if take 2 t = ''0x'' \<or> take 2 t = ''0X'' then parseNonDecimal 16 (drop 2 t)
     else if take 2 t = ''0o'' \<or> take 2 t = ''0O'' then parseNonDecimal 8 (drop 2 t)
     else if take 2 t = ''0b'' \<or> take 2 t = ''0B'' then parseNonDecimal 2 (drop 2 t)
     else
       let neg = (hd t = CHR ''-'');
           u = (if hd t = CHR ''-'' \<or> hd t = CHR ''+'' then tl t else t)
       in if u = ''Infinity'' then (if neg then NInf else PInf)
          else (case parseUnsignedDecimal u of
              None \<Rightarrow> NaN
            | Some q \<Rightarrow> roundDouble (if neg then - q else q)))"

section \<open>The rating of the map client\<close>

text \<open>
  The values a property of a parsed GeoJSON feature can hold; \<open>JUndefined\<close> is what
  reading an absent property gives. An object is the list of its own properties.
\<close>

datatype jsval =
    JUndefined
  | JNull
  | JBool bool
  | JNum jsnum
  | JStr string
  | JArr "jsval list"
  | JObj "(string \<times> jsval) list"

text \<open>
  The client's \<^verbatim>\<open>Props\<close>. Only the eleven rating properties are read by the score; they
  are typed \<^verbatim>\<open>string | number\<close> and optional, and \<^verbatim>\<open>toNumberMaybe\<close> takes them as
  \<^verbatim>\<open>unknown\<close>, so they are \<open>jsval\<close> here. The other fields carry the prefix \<open>c_\<close>.
\<close>

record Props =
  c_tilsynsobjektid :: string
  c_orgnummer :: "string option"
  c_navn :: string
  c_adresse :: string
  c_dato :: string
  karakter :: jsval
  karakter1 :: jsval
  karakter2 :: jsval
  karakter3 :: jsval
  karakter4 :: jsval
  karakter5 :: jsval
  karakter6 :: jsval
  karakter7 :: jsval
  karakter8 :: jsval
  karakter9 :: jsval
  karakter10 :: jsval
  c_status :: "string option"

fun toNumberMaybe :: "jsval \<Rightarrow> jsnum option" where
  "toNumberMaybe (JNum v) = (if isFinite v then Some v else None)"
| "toNumberMaybe (JStr v) =
     (let t = trim v in
      if t = [] then None
      else let n = Number_str t in if isFinite n then Some n else None)"
| "toNumberMaybe _ = None"

definition raws :: "'a Props_scheme \<Rightarrow> jsval list" where
  "raws p = [karakter1 p, karakter2 p, karakter3 p, karakter4 p, karakter5 p,
             karakter6 p, karakter7 p, karakter8 p, karakter9 p, karakter10 p]"

text \<open>The loop over \<^verbatim>\<open>raws\<close>, with \<^verbatim>\<open>candidates\<close> as the accumulator.\<close>

fun collectCandidates :: "jsval list \<Rightarrow> jsnum list \<Rightarrow> jsnum list" where
  "collectCandidates [] candidates = candidates"
| "collectCandidates (r # rs) candidates =
     (case toNumberMaybe r of
        None \<Rightarrow> collectCandidates rs candidates
      | Some n \<Rightarrow>
          if js_ge n (Fin 0) \<and> js_le n (Fin 3)
          then collectCandidates rs (candidates @ [n])
          else collectCandidates rs candidates)"

definition computeSmileScore :: "'a Props_scheme \<Rightarrow> jsnum" where
  "computeSmileScore p =
     (let candidates = collectCandidates (raws p) [] in
      if 0 < length candidates then Math_max candidates
      else (case toNumberMaybe (karakter p) of
          None \<Rightarrow> Fin (- 1)
        | Some fallback \<Rightarrow>
            if js_ge fallback (Fin 0) \<and> js_le fallback (Fin 3) then fallback else Fin (- 1)))"

text \<open>
  Properties for the examples: the criteria fill \<^verbatim>\<open>karakter1\<close> onwards, those
  beyond the list are absent, and the second argument is the legacy \<^verbatim>\<open>karakter\<close>.
\<close>

definition criterion :: "jsval list \<Rightarrow> nat \<Rightarrow> jsval" where
  "criterion ks i = (if i < length ks then ks ! i else JUndefined)"

definition mkProps :: "jsval list \<Rightarrow> jsval \<Rightarrow> Props" where
  "mkProps ks k =
     \<lparr>c_tilsynsobjektid = [], c_orgnummer = None, c_navn = [], c_adresse = [], c_dato = [],
      karakter = k,
      karakter1 = criterion ks 0, karakter2 = criterion ks 1, karakter3 = criterion ks 2,
      karakter4 = criterion ks 3, karakter5 = criterion ks 4, karakter6 = criterion ks 5,
      karakter7 = criterion ks 6, karakter8 = criterion ks 7, karakter9 = criterion ks 8,
      karakter10 = criterion ks 9,
      c_status = None\<rparr>"

section \<open>The pipeline: rows, dates and the latest row per place\<close>

record TilsynRow =
  tilsynsobjektid :: string
  orgnummer :: "string option"
  navn :: string
  adrlinje1 :: "string option"
  adrlinje2 :: "string option"
  postnr :: "string option"
  poststed :: "string option"
  tilsynid :: "string option"
  status :: "string option"
  dato :: string
  total_karakter :: string

text \<open>
  \<^verbatim>\<open>parseDato\<close>; the argument is optional because the source reads it through
  \<^verbatim>\<open>ddmmyyyy ?? ""\<close>.
\<close>

definition parseDato :: "string option \<Rightarrow> jsnum" where
  "parseDato ddmmyyyy = (let d = trim (case ddmmyyyy of None \<Rightarrow> [] | Some s \<Rightarrow> s) in
     if length d \<noteq> 8 then Fin 0
     else
       let dd = take 2 d;
           mm = take 2 (drop 2 d);
           yyyy = take 4 (drop 4 d)
       in Number_str (yyyy @ mm @ dd))"

text \<open>The filter on the parsed rows: a non-empty string is the only truthy string.\<close>

definition rowOk :: "TilsynRow \<Rightarrow> bool" where
  "rowOk r = (tilsynsobjektid r \<noteq> [] \<and> dato r \<noteq> [] \<and> navn r \<noteq> [])"

text \<open>
  The \<^verbatim>\<open>Map\<close> named \<^verbatim>\<open>latest\<close> is an association list in insertion order:
  \<open>map_of\<close> is \<^verbatim>\<open>get\<close>, and \<open>AList.update\<close> is \<^verbatim>\<open>set\<close> (a present key keeps its
  place, a new key goes last).
\<close>

fun latestLoop :: "TilsynRow list \<Rightarrow> (string \<times> TilsynRow) list \<Rightarrow> (string \<times> TilsynRow) list" where
  "latestLoop [] latest = latest"
| "latestLoop (r # rs) latest =
     (let key = tilsynsobjektid r in
      case map_of latest key of
        None \<Rightarrow> latestLoop rs (AList.update key r latest)
      | Some cur \<Rightarrow>
          if js_gt (parseDato (Some (dato r))) (parseDato (Some (dato cur)))
          then latestLoop rs (AList.update key r latest)
          else latestLoop rs latest)"

definition latestMap :: "TilsynRow list \<Rightarrow> (string \<times> TilsynRow) list" where
  "latestMap rows = latestLoop (filter rowOk rows) []"

definition latestRows :: "TilsynRow list \<Rightarrow> TilsynRow list" where
  "latestRows rows = map snd (latestMap rows)"


text \<open>
  A row for the examples: the place, the name, the date and the total rating; no
  organisation number, and the address lines and the postal fields as given.
\<close>

definition exampleRow :: "string \<Rightarrow> string \<Rightarrow> string \<Rightarrow> string \<Rightarrow> string option list \<Rightarrow> TilsynRow" where
  "exampleRow ident name date rating addr =
     \<lparr>tilsynsobjektid = ident, orgnummer = None, navn = name,
      adrlinje1 = (if 0 < length addr then addr ! 0 else None),
      adrlinje2 = (if 1 < length addr then addr ! 1 else None),
      postnr = (if 2 < length addr then addr ! 2 else None),
      poststed = (if 3 < length addr then addr ! 3 else None),
      tilsynid = None, status = None, dato = date, total_karakter = rating\<rparr>"

section \<open>The pipeline: addresses\<close>

record BrregAdresse =
  adresse :: "string list option"
  postnummer :: "string option"
  brreg_poststed :: "string option"

record BrregEntity =
  organisasjonsnummer :: string
  brreg_navn :: "string option"
  forretningsadresse :: "BrregAdresse option"
  beliggenhetsadresse :: "BrregAdresse option"

record LngLat =
  lon :: jsnum
  lat :: jsnum

datatype adressekilde = BRREG | MAT

record TilsynProperties =
  p_tilsynsobjektid :: string
  p_orgnummer :: "string option"
  p_navn :: string
  p_adresse :: string
  p_dato :: string
  p_karakter :: jsnum
  p_status :: "string option"
  p_adressekilde :: adressekilde

text \<open>
  A GeoJSON point feature: the coordinates and the properties. The coordinates are the
  values of \<^verbatim>\<open>geo.lon\<close> and \<^verbatim>\<open>geo.lat\<close>, which are \<^verbatim>\<open>undefined\<close> when \<^verbatim>\<open>geo\<close>
  has no such property.
\<close>

record Feature =
  coordinates :: "jsval list"
  properties :: TilsynProperties

text \<open>
  \<^verbatim>\<open>normalizeQuery\<close>: the apostrophe and the backquote go (the right single quotation
  mark of the source's character class is outside Latin-1), parentheses and commas become
  spaces, every run of white space becomes one space, and the ends are trimmed.
\<close>

fun collapseSpace :: "string \<Rightarrow> string" where
  "collapseSpace [] = []"
| "collapseSpace (c # cs) =
     (if isWhiteSpace c
      then (if cs \<noteq> [] \<and> isWhiteSpace (hd cs) then collapseSpace cs
            else CHR '' '' # collapseSpace cs)
      else c # collapseSpace cs)"

definition normalizeQuery :: "string \<Rightarrow> string" where
  "normalizeQuery s =
     trim (collapseSpace
       (map (\<lambda>c. if c = CHR ''('' \<or> c = CHR '')'' \<or> c = CHR '','' then CHR '' '' else c)
         (filter (\<lambda>c. c \<noteq> CHR 0x27 \<and> c \<noteq> CHR 0x60) s)))"

definition isValidOrgnr :: "string option \<Rightarrow> bool" where
  "isValidOrgnr orgnr = (case orgnr of
       None \<Rightarrow> False
     | Some s \<Rightarrow> if s = [] then False else (let t = trim s in length t = 9 \<and> list_all isDigit t))"

definition buildMatAdresseFallback :: "TilsynRow \<Rightarrow> string" where
  "buildMatAdresseFallback r =
     trim (join '', '' (filterBoolean [adrlinje1 r, adrlinje2 r, postnr r, poststed r]))"

definition pickBrregAdresse :: "BrregEntity \<Rightarrow> BrregAdresse option" where
  "pickBrregAdresse entity = (case beliggenhetsadresse entity of
       Some a \<Rightarrow> Some a
     | None \<Rightarrow> forretningsadresse entity)"

definition formatBrregAdresse :: "BrregAdresse \<Rightarrow> string option" where
  "formatBrregAdresse addr =
     (let lines = filter (\<lambda>l. l \<noteq> []) (case adresse addr of None \<Rightarrow> [] | Some ls \<Rightarrow> ls);
          pn = map_option trim (postnummer addr);
          ps = map_option trim (brreg_poststed addr);
          main = trim (join '', '' lines);
          tail = trim (join '' '' (filterBoolean [pn, ps]));
          full = trim (join '', '' (filterBoolean [Some main, Some tail]))
      in if length full \<noteq> 0 then Some full else None)"

section \<open>The pipeline: the two services\<close>

text \<open>
  The run is sequential, so the outside world is a list of events in the order they
  happen: the requests sent and the delays slept. A request is named by the URL builder
  of the source and its argument (the organisation number, or the query text).
  What \<^verbatim>\<open>console.log\<close> prints is not recorded.
\<close>

datatype request = BRREG_UNDERENHET string | BRREG_ENHET string | KARTVERKET_SOK string

datatype event = Fetch request | Sleep jsnum

text \<open>
  What \<^verbatim>\<open>fetch\<close> gives: the promise is rejected, or there is a response with a status
  and a body. The body is \<open>None\<close> when it is not JSON (\<^verbatim>\<open>res.json()\<close> then throws) and the
  parsed value otherwise: a \<^verbatim>\<open>BrregEntity\<close> for the registry, as the source's cast has
  it, and any value for Kartverket, whose payload the source reads as \<^verbatim>\<open>unknown\<close>.
\<close>

datatype 'a response = Rejected | Response nat "'a option"

datatype error = FetchError | SyntaxError | TypeError

text \<open>
  The environment of a run: the two services, which may answer differently as time goes
  on (the first argument is the number of events so far), and the two delays.
\<close>

record Env =
  fetch_brreg :: "nat \<Rightarrow> request \<Rightarrow> BrregEntity response"
  fetch_kartverket :: "nat \<Rightarrow> request \<Rightarrow> jsval response"
  BRREG_DELAY_MS :: jsnum
  GEOCODE_DELAY_MS :: jsnum

definition res_ok :: "nat \<Rightarrow> bool" where
  "res_ok st = (200 \<le> st \<and> st \<le> 299)"

definition fetchJsonOrNull :: "Env \<Rightarrow> request \<Rightarrow> event list \<Rightarrow> error + (BrregEntity option \<times> event list)" where
  "fetchJsonOrNull env url tr = (case fetch_brreg env (length tr) url of
       Rejected \<Rightarrow> Inl FetchError
     | Response st b \<Rightarrow>
         if st = 404 then Inr (None, tr @ [Fetch url])
         else if \<not> res_ok st then Inr (None, tr @ [Fetch url])
         else (case b of
             None \<Rightarrow> Inl SyntaxError
           | Some v \<Rightarrow> Inr (Some v, tr @ [Fetch url])))"

text \<open>\<^verbatim>\<open>x?.organisasjonsnummer\<close> as a condition: there is an entity and the field is not empty.\<close>

definition hasOrgnr :: "BrregEntity option \<Rightarrow> bool" where
  "hasOrgnr x = (case x of None \<Rightarrow> False | Some v \<Rightarrow> organisasjonsnummer v \<noteq> [])"

definition fetchBrregEntity :: "Env \<Rightarrow> string \<Rightarrow> event list \<Rightarrow> error + (BrregEntity option \<times> event list)" where
  "fetchBrregEntity env orgnr tr = (case fetchJsonOrNull env (BRREG_UNDERENHET orgnr) tr of
       Inl err \<Rightarrow> Inl err
     | Inr (u, tr1) \<Rightarrow>
         if hasOrgnr u then Inr (u, tr1)
         else (case fetchJsonOrNull env (BRREG_ENHET orgnr) tr1 of
             Inl err \<Rightarrow> Inl err
           | Inr (e, tr2) \<Rightarrow> if hasOrgnr e then Inr (e, tr2) else Inr (None, tr2)))"

text \<open>
  Reading a property: an object gives the property's value, or \<^verbatim>\<open>undefined\<close>; so does
  every other value but \<^verbatim>\<open>null\<close> and \<^verbatim>\<open>undefined\<close>, for the four names the source
  reads (none is a property of an array, a string, a number or a boolean); reading a
  property of \<^verbatim>\<open>null\<close> or \<^verbatim>\<open>undefined\<close> throws a TypeError.
\<close>

fun getProp :: "jsval \<Rightarrow> string \<Rightarrow> error + jsval" where
  "getProp JUndefined k = Inl TypeError"
| "getProp JNull k = Inl TypeError"
| "getProp (JObj kvs) k = Inr (case map_of kvs k of None \<Rightarrow> JUndefined | Some v \<Rightarrow> v)"
| "getProp _ k = Inr JUndefined"

text \<open>The optional chain \<^verbatim>\<open>x?.[k]\<close>: \<^verbatim>\<open>undefined\<close> when \<open>x\<close> is nullish.\<close>

fun getPropOpt :: "jsval \<Rightarrow> string \<Rightarrow> jsval" where
  "getPropOpt (JObj kvs) k = (case map_of kvs k of None \<Rightarrow> JUndefined | Some v \<Rightarrow> v)"
| "getPropOpt _ k = JUndefined"

fun isObject :: "jsval \<Rightarrow> bool" where
  "isObject (JObj _) = True"
| "isObject (JArr _) = True"
| "isObject _ = False"

definition extractLngLatFromKartverket :: "jsval \<Rightarrow> error + LngLat option" where
  "extractLngLatFromKartverket payload =
     (if \<not> isObject payload then Inr None
      else (case getPropOpt payload ''adresser'' of
          JArr adresser \<Rightarrow>
            (case adresser of
               [] \<Rightarrow> Inr None
             | first # _ \<Rightarrow>
                 (case getProp first ''representasjonspunkt'' of
                    Inl err \<Rightarrow> Inl err
                  | Inr rp \<Rightarrow>
                      (case (getPropOpt rp ''lat'', getPropOpt rp ''lon'') of
                         (JNum la, JNum lo) \<Rightarrow> Inr (Some \<lparr>lon = lo, lat = la\<rparr>)
                       | _ \<Rightarrow> Inr None)))
        | _ \<Rightarrow> Inr None))"

text \<open>
  The specification's words for a payload with a well-formed representative point: an
  object whose \<^verbatim>\<open>adresser\<close> is a non-empty list, whose first result is an object with a
  \<^verbatim>\<open>representasjonspunkt\<close> object holding the numbers \<^verbatim>\<open>lat\<close> and \<^verbatim>\<open>lon\<close>. The
  first result of a payload is the first entry of that list, when there is one.
\<close>

definition firstResult :: "jsval \<Rightarrow> jsval option" where
  "firstResult payload = (case payload of
       JObj kvs \<Rightarrow> (case map_of kvs ''adresser'' of Some (JArr (x # _)) \<Rightarrow> Some x | _ \<Rightarrow> None)
     | _ \<Rightarrow> None)"

definition wellFormedPoint :: "jsval \<Rightarrow> bool" where
  "wellFormedPoint payload = (case firstResult payload of
       Some (JObj rkvs) \<Rightarrow>
         (case map_of rkvs ''representasjonspunkt'' of
            Some (JObj pkvs) \<Rightarrow>
              (case (map_of pkvs ''lat'', map_of pkvs ''lon'') of
                 (Some (JNum _), Some (JNum _)) \<Rightarrow> True
               | _ \<Rightarrow> False)
          | _ \<Rightarrow> False)
     | _ \<Rightarrow> False)"

definition geocodeKartverket :: "Env \<Rightarrow> string \<Rightarrow> event list \<Rightarrow> error + (LngLat option \<times> event list)" where
  "geocodeKartverket env query tr = (case fetch_kartverket env (length tr) (KARTVERKET_SOK query) of
       Rejected \<Rightarrow> Inl FetchError
     | Response st b \<Rightarrow>
         if \<not> res_ok st then Inr (None, tr @ [Fetch (KARTVERKET_SOK query)])
         else (case b of
             None \<Rightarrow> Inl SyntaxError
           | Some data \<Rightarrow>
               (case extractLngLatFromKartverket data of
                  Inl err \<Rightarrow> Inl err
                | Inr g \<Rightarrow> Inr (g, tr @ [Fetch (KARTVERKET_SOK query)]))))"

section \<open>The pipeline: the loop of \<^verbatim>\<open>main\<close>\<close>

text \<open>
  The two caches are plain objects (\<^verbatim>\<open>{}\<close>, or what \<^verbatim>\<open>JSON.parse\<close> gives), typed
  \<^verbatim>\<open>Record<string, ...>\<close>. Such an object has the properties of its own, a map from
  keys to values, and it inherits the members of \<^verbatim>\<open>Object.prototype\<close>, whose names are
  listed here. Reading \<^verbatim>\<open>cache[key]\<close> gives the own property when there is one, the
  inherited member when \<open>key\<close> is one of these names, and \<^verbatim>\<open>undefined\<close> otherwise;
  \<^verbatim>\<open>key in cache\<close> is true in the first two cases. Every inherited member is truthy
  (a function, or for \<^verbatim>\<open>__proto__\<close> the prototype object) and has no property
  \<^verbatim>\<open>lon\<close> or \<^verbatim>\<open>lat\<close>.
\<close>

definition objectPrototype :: "string list" where
  "objectPrototype =
     [''constructor'', ''__defineGetter__'', ''__defineSetter__'', ''hasOwnProperty'',
      ''__lookupGetter__'', ''__lookupSetter__'', ''isPrototypeOf'', ''propertyIsEnumerable'',
      ''toString'', ''valueOf'', ''__proto__'', ''toLocaleString'']"

text \<open>
  The values the variable \<^verbatim>\<open>geo\<close> of the loop can hold besides \<^verbatim>\<open>null\<close>: a point, or
  the member of \<^verbatim>\<open>Object.prototype\<close> of the given name.
\<close>

datatype geoValue = Point LngLat | Inherited string

text \<open>\<^verbatim>\<open>geocodeCache[geocodeKey] ?? null\<close>, with \<open>None\<close> for \<^verbatim>\<open>null\<close>.\<close>

definition readCache :: "(string \<rightharpoonup> LngLat) \<Rightarrow> string \<Rightarrow> geoValue option" where
  "readCache cache key = (case cache key of
       Some g \<Rightarrow> Some (Point g)
     | None \<Rightarrow> if key \<in> set objectPrototype then Some (Inherited key) else None)"

text \<open>\<^verbatim>\<open>geo.lon\<close> and \<^verbatim>\<open>geo.lat\<close>.\<close>

fun geo_lon :: "geoValue \<Rightarrow> jsval" where
  "geo_lon (Point g) = JNum (lon g)"
| "geo_lon (Inherited _) = JUndefined"

fun geo_lat :: "geoValue \<Rightarrow> jsval" where
  "geo_lat (Point g) = JNum (lat g)"
| "geo_lat (Inherited _) = JUndefined"

text \<open>
  The variables the loop of \<^verbatim>\<open>main\<close> changes, and the events so far. Each cache is
  the map of its own properties. The registry cache is only read at an organisation
  number, nine digits, which never is the name of an inherited member; the geocode cache
  is read at an address, through \<open>readCache\<close>.
\<close>

record State =
  brregCache :: "string \<rightharpoonup> BrregEntity option"
  geocodeCache :: "string \<rightharpoonup> LngLat"
  features :: "Feature list"
  brregLookups :: nat
  brregHits :: nat
  geocodeAttempts :: nat
  geocodeHits :: nat
  trace :: "event list"

text \<open>Step 4a, the block \<^verbatim>\<open>if (!(orgnr in brregCache)) { ... }\<close>.\<close>

definition brregLookup :: "Env \<Rightarrow> string \<Rightarrow> State \<Rightarrow> error + State" where
  "brregLookup env orgnr s =
     (if orgnr \<in> dom (brregCache s) then Inr s
      else (case fetchBrregEntity env orgnr (trace s) of
          Inl err \<Rightarrow> Inl err
        | Inr (v, tr) \<Rightarrow>
            Inr (s\<lparr>brregLookups := brregLookups s + 1,
                   brregCache := (brregCache s)(orgnr \<mapsto> v),
                   trace := tr @ [Sleep (BRREG_DELAY_MS env)]\<rparr>)))"

text \<open>
  Step 4a as a whole: the organisation number, the best address and its source. The
  address is \<open>None\<close> when neither BRREG nor the row's own fields give a non-empty one.
\<close>

definition main_4a :: "Env \<Rightarrow> TilsynRow \<Rightarrow> State \<Rightarrow> error + ((string option \<times> string option \<times> adressekilde) \<times> State)" where
  "main_4a env r s =
     (let orgnr = (if isValidOrgnr (orgnummer r)
                   then Some (trim (case orgnummer r of None \<Rightarrow> [] | Some t \<Rightarrow> t)) else None) in
      case (case orgnr of
              None \<Rightarrow> Inr (None, MAT, s)
            | Some nr \<Rightarrow>
                (case brregLookup env nr s of
                   Inl err \<Rightarrow> Inl err
                 | Inr s1 \<Rightarrow>
                     (let entity = (case brregCache s1 nr of None \<Rightarrow> None | Some v \<Rightarrow> v);
                          addr = (case entity of None \<Rightarrow> None | Some en \<Rightarrow> pickBrregAdresse en);
                          formatted = (case addr of None \<Rightarrow> None | Some a \<Rightarrow> formatBrregAdresse a)
                      in case formatted of
                           None \<Rightarrow> Inr (None, MAT, s1)
                         | Some f \<Rightarrow>
                             if f \<noteq> [] then Inr (Some f, BRREG, s1\<lparr>brregHits := brregHits s1 + 1\<rparr>)
                             else Inr (None, MAT, s1)))) of
        Inl err \<Rightarrow> Inl err
      | Inr (best, kilde, s2) \<Rightarrow>
          (let bestAdresse = (case best of
                 Some b \<Rightarrow> Some b
               | None \<Rightarrow> (let matAddr = buildMatAdresseFallback r in
                          if matAddr \<noteq> [] then Some matAddr else None))
           in Inr ((orgnr, bestAdresse, kilde), s2)))"

text \<open>
  Step 4b: the value of \<^verbatim>\<open>geo\<close> for an address, from the cache or from Kartverket.
  The request is made when the value read from the cache is \<^verbatim>\<open>null\<close>; the key is then
  neither an own property nor the name of an inherited member, so the assignment
  \<^verbatim>\<open>geocodeCache[geocodeKey] = geo\<close> adds an own property.
\<close>

definition main_4b :: "Env \<Rightarrow> string \<Rightarrow> State \<Rightarrow> error + (geoValue option \<times> State)" where
  "main_4b env bestAdresse s = (case readCache (geocodeCache s) bestAdresse of
       Some v \<Rightarrow> Inr (Some v, s)
     | None \<Rightarrow>
         (case geocodeKartverket env (normalizeQuery bestAdresse) (trace s) of
            Inl err \<Rightarrow> Inl err
          | Inr (geo, tr) \<Rightarrow>
              (let s1 = s\<lparr>geocodeAttempts := geocodeAttempts s + 1, trace := tr\<rparr>;
                   s2 = (case geo of
                       None \<Rightarrow> s1
                     | Some g \<Rightarrow> s1\<lparr>geocodeCache := (geocodeCache s1)(bestAdresse \<mapsto> g),
                                    geocodeHits := geocodeHits s1 + 1\<rparr>)
               in Inr (map_option Point geo, s2\<lparr>trace := trace s2 @ [Sleep (GEOCODE_DELAY_MS env)]\<rparr>))))"

definition makeFeature :: "TilsynRow \<Rightarrow> string option \<Rightarrow> string \<Rightarrow> adressekilde \<Rightarrow> geoValue \<Rightarrow> Feature" where
  "makeFeature r orgnr bestAdresse adresseKilde geo =
     (let k = Number_str (total_karakter r) in
      \<lparr>coordinates = [geo_lon geo, geo_lat geo],
       properties = \<lparr>p_tilsynsobjektid = tilsynsobjektid r,
                     p_orgnummer = orgnr,
                     p_navn = navn r,
                     p_adresse = bestAdresse,
                     p_dato = dato r,
                     p_karakter = (if isFinite k then k else Fin (- 1)),
                     p_status = status r,
                     p_adressekilde = adresseKilde\<rparr>\<rparr>)"

text \<open>One turn of the loop; the two \<^verbatim>\<open>continue\<close> return the state without a new feature.\<close>

definition main_body :: "Env \<Rightarrow> TilsynRow \<Rightarrow> State \<Rightarrow> error + State" where
  "main_body env r s = (case main_4a env r s of
       Inl err \<Rightarrow> Inl err
     | Inr ((orgnr, best, kilde), s1) \<Rightarrow>
         (case best of
            None \<Rightarrow> Inr s1
          | Some bestAdresse \<Rightarrow>
              (case main_4b env bestAdresse s1 of
                 Inl err \<Rightarrow> Inl err
               | Inr (geo, s2) \<Rightarrow>
                   (case geo of
                      None \<Rightarrow> Inr s2
                    | Some g \<Rightarrow>
                        Inr (s2\<lparr>features := features s2 @ [makeFeature r orgnr bestAdresse kilde g]\<rparr>)))))"

text \<open>The loop over \<^verbatim>\<open>limited\<close>; an exception ends the run.\<close>

fun main_loop :: "Env \<Rightarrow> TilsynRow list \<Rightarrow> State \<Rightarrow> error + State" where
  "main_loop env [] s = Inr s"
| "main_loop env (r # rs) s = (case main_body env r s of
       Inl err \<Rightarrow> Inl err
     | Inr s1 \<Rightarrow> main_loop env rs s1)"

text \<open>
  Values for the examples: the state at the start of a run with empty cache files, an
  environment with the default delays of the source (30 and 80 milliseconds), an entity
  with one operating-location address, and a Kartverket payload with one result.
\<close>

definition emptyState :: State where
  "emptyState = \<lparr>brregCache = Map.empty, geocodeCache = Map.empty, features = [],
     brregLookups = 0, brregHits = 0, geocodeAttempts = 0, geocodeHits = 0, trace = []\<rparr>"

definition exampleEnv :: "(nat \<Rightarrow> request \<Rightarrow> BrregEntity response) \<Rightarrow> (nat \<Rightarrow> request \<Rightarrow> jsval response) \<Rightarrow> Env" where
  "exampleEnv b k = \<lparr>fetch_brreg = b, fetch_kartverket = k,
     BRREG_DELAY_MS = Fin 30, GEOCODE_DELAY_MS = Fin 80\<rparr>"

definition exampleEntity :: "string \<Rightarrow> string \<Rightarrow> string \<Rightarrow> string \<Rightarrow> BrregEntity" where
  "exampleEntity nr line pn ps =
     \<lparr>organisasjonsnummer = nr, brreg_navn = None, forretningsadresse = None,
      beliggenhetsadresse = Some \<lparr>adresse = Some [line], postnummer = Some pn, brreg_poststed = Some ps\<rparr>\<rparr>"

definition pointPayload :: "jsnum \<Rightarrow> jsnum \<Rightarrow> jsval" where
  "pointPayload la lo =
     JObj [(''adresser'', JArr [JObj [(''representasjonspunkt'', JObj [(''lat'', JNum la), (''lon'', JNum lo)])]])]"

text \<open>
  Four environments and four rows for the examples. In the first, both registry endpoints
  answer every organisation number, with different addresses, and Kartverket answers
  every query with one point. In the second, every request is answered with status 500.
  In the third, the registry answers 404 and Kartverket answers 200 with a body that is
  not JSON. In the fourth, Kartverket answers 200 with \<^verbatim>\<open>{"adresser": [null]}\<close>. The
  first row has no organisation number and the address fields of Storgata 1; the second
  has an organisation number and no address field; the third is another place with the
  address fields of the first; the fourth is a place whose only address field is the
  text \<^verbatim>\<open>constructor\<close>.
\<close>

definition envBothAnswer :: Env where
  "envBothAnswer = exampleEnv
     (\<lambda>t q. case q of
         BRREG_UNDERENHET n \<Rightarrow> Response 200 (Some (exampleEntity n ''Storgata 1'' ''0150'' ''Oslo''))
       | BRREG_ENHET n \<Rightarrow> Response 200 (Some (exampleEntity n ''Annen vei 2'' ''5003'' ''Bergen''))
       | KARTVERKET_SOK _ \<Rightarrow> Rejected)
     (\<lambda>t q. Response 200 (Some (pointPayload (Fin (599 / 10)) (Fin (107 / 10)))))"

definition envAllFail :: Env where
  "envAllFail = exampleEnv (\<lambda>t q. Response 500 None) (\<lambda>t q. Response 500 None)"

definition envNotJson :: Env where
  "envNotJson = exampleEnv (\<lambda>t q. Response 404 None) (\<lambda>t q. Response 200 None)"

definition envNullResult :: Env where
  "envNullResult = exampleEnv (\<lambda>t q. Response 404 None)
     (\<lambda>t q. Response 200 (Some (JObj [(''adresser'', JArr [JNull])])))"

definition storgataRow :: "string \<Rightarrow> TilsynRow" where
  "storgataRow rating =
     exampleRow ''1'' ''Kafe'' ''01012024'' rating [Some ''Storgata 1'', None, Some ''0150'', Some ''Oslo'']"

definition orgnrRow :: "string \<Rightarrow> TilsynRow" where
  "orgnrRow nr = (exampleRow ''2'' ''Bar'' ''15012024'' ''1'' [])\<lparr>orgnummer := Some nr\<rparr>"

definition naboRow :: "string \<Rightarrow> TilsynRow" where
  "naboRow rating =
     exampleRow ''3'' ''Kiosk'' ''02012024'' rating [Some ''Storgata 1'', None, Some ''0150'', Some ''Oslo'']"

definition constructorRow :: "string \<Rightarrow> TilsynRow" where
  "constructorRow ident = exampleRow ident ''Kro'' ''03012024'' ''1'' [Some ''constructor'']"

section \<open>From the written file to the client\<close>

text \<open>
  The features are written with \<^verbatim>\<open>JSON.stringify\<close> and read back by the client with
  \<^verbatim>\<open>res.json()\<close>. A finite number comes back as the same number, any other number as
  \<^verbatim>\<open>null\<close>; the properties the pipeline does not write are absent.
\<close>

definition jsonNumber :: "jsnum \<Rightarrow> jsval" where
  "jsonNumber n = (if isFinite n then JNum n else JNull)"

definition clientProps :: "TilsynProperties \<Rightarrow> Props" where
  "clientProps q =
     \<lparr>c_tilsynsobjektid = p_tilsynsobjektid q,
      c_orgnummer = p_orgnummer q,
      c_navn = p_navn q,
      c_adresse = p_adresse q,
      c_dato = p_dato q,
      karakter = jsonNumber (p_karakter q),
      karakter1 = JUndefined, karakter2 = JUndefined, karakter3 = JUndefined,
      karakter4 = JUndefined, karakter5 = JUndefined, karakter6 = JUndefined,
      karakter7 = JUndefined, karakter8 = JUndefined, karakter9 = JUndefined,
      karakter10 = JUndefined,
      c_status = p_status q\<rparr>"

chapter \<open>Properties\<close>

section \<open>Numbers and strings\<close>





lemma js_le_trans: "js_le a b \<Longrightarrow> js_le b c \<Longrightarrow> js_le a c"
  by (cases a; cases b; cases c) (auto simp: js_le_def)

lemma isDigit_not_space: "isDigit c \<Longrightarrow> \<not> isWhiteSpace c"
  by (auto simp: isDigit_def isWhiteSpace_def)

lemma trim_no_space:
  assumes "s \<noteq> []" "\<not> isWhiteSpace (hd s)" "\<not> isWhiteSpace (last s)"
  shows "trim s = s"
proof -
  have 1: "dropWhile isWhiteSpace s = s"
    using assms by (cases s) auto
  have 2: "dropWhile isWhiteSpace (rev s) = rev s"
    using assms by (cases "rev s") (auto simp: last_rev hd_rev)
  show ?thesis by (simp add: trim_def 1 2)
qed

lemma trim_digits: "list_all isDigit w \<Longrightarrow> trim w = w"
proof (cases "w = []")
  case True
  then show ?thesis by (simp add: trim_def)
next
  case False
  assume "list_all isDigit w"
  then have "isDigit (hd w)" "isDigit (last w)"
    using False by (auto simp: list_all_iff)
  then show ?thesis
    using False by (intro trim_no_space) (auto dest: isDigit_not_space)
qed

lemma hexVal_digit: "isDigit c \<Longrightarrow> \<exists>v. hexVal c = Some v \<and> 0 \<le> v \<and> v \<le> 9"
proof -
  assume d: "isDigit c"
  have "(of_char c :: int) = int (of_char c)" by (simp add: of_char_def)
  with d have "48 \<le> (of_char c :: int) \<and> (of_char c :: int) \<le> 57"
    by (simp add: isDigit_def)
  then show ?thesis by (auto simp: hexVal_def Let_def)
qed

lemma digitsVal_snoc:
  "digitsVal b (ds @ [c]) = digitsVal b ds * b + (case hexVal c of None \<Rightarrow> 0 | Some v \<Rightarrow> v)"
  by (simp add: digitsVal_def)

lemma digitsVal_Nil: "digitsVal b [] = 0"
  by (simp add: digitsVal_def)

lemma digitsVal_append:
  "digitsVal b (xs @ ys) = digitsVal b xs * b ^ length ys + digitsVal b ys"
proof (induction ys rule: rev_induct)
  case Nil
  then show ?case by (simp add: digitsVal_Nil)
next
  case (snoc y ys)
  have "digitsVal b (xs @ ys @ [y]) = digitsVal b ((xs @ ys) @ [y])" by simp
  also have "\<dots> = digitsVal b (xs @ ys) * b + (case hexVal y of None \<Rightarrow> 0 | Some v \<Rightarrow> v)"
    by (rule digitsVal_snoc)
  finally show ?case
    by (simp add: snoc digitsVal_snoc algebra_simps)
qed

lemma digitsVal_bounds:
  "list_all isDigit w \<Longrightarrow> 0 \<le> digitsVal 10 w \<and> digitsVal 10 w < 10 ^ length w"
proof (induction w rule: rev_induct)
  case Nil
  then show ?case by (simp add: digitsVal_Nil)
next
  case (snoc c w)
  then have w: "0 \<le> digitsVal 10 w" "digitsVal 10 w < 10 ^ length w" and c: "isDigit c"
    by simp_all
  from hexVal_digit[OF c] obtain v where v: "hexVal c = Some v" "0 \<le> v" "v \<le> 9" by blast
  have "digitsVal 10 (w @ [c]) = digitsVal 10 w * 10 + v"
    by (simp add: digitsVal_snoc v)
  moreover have "digitsVal 10 w + 1 \<le> 10 ^ length w" using w by simp
  then have "(digitsVal 10 w + 1) * 10 \<le> 10 ^ length w * 10" by (rule mult_right_mono) simp
  ultimately show ?case using w v by (simp add: algebra_simps)
qed

text \<open>The exponent \<open>ilog2\<close> brackets its argument.\<close>

lemma ilog2_bounds:
  assumes "0 < a"
  shows "pow_int 2 (ilog2 a) \<le> a \<and> a < pow_int 2 (ilog2 a + 1)"
proof (cases "1 \<le> a")
  case True
  define n where "n = \<lfloor>a\<rfloor>"
  have n: "0 < n" using True by (simp add: n_def)
  have e: "ilog2 a = bitlen n - 1" using True by (simp add: ilog2_def n_def)
  from bitlen_bounds[OF n] have b: "2 ^ nat (bitlen n - 1) \<le> n" "n < 2 ^ nat (bitlen n)" by simp_all
  have pos: "0 < bitlen n"
  proof (rule ccontr)
    assume "\<not> 0 < bitlen n"
    then have "nat (bitlen n) = 0" by simp
    with b(2) n show False by simp
  qed
  have "(of_int (2 ^ nat (bitlen n - 1)) :: rat) \<le> of_int n" using b(1) by (simp only: of_int_le_iff)
  also have "\<dots> \<le> a" by (simp add: n_def)
  finally have "(of_int (2 ^ nat (bitlen n - 1)) :: rat) \<le> a" .
  then have lo: "pow_int 2 (ilog2 a) \<le> a" using pos by (simp add: e pow_int_def)
  have "n + 1 \<le> 2 ^ nat (bitlen n)" using b(2) by simp
  then have "(of_int (n + 1) :: rat) \<le> of_int (2 ^ nat (bitlen n))" by (simp only: of_int_le_iff)
  moreover have "a < of_int (n + 1)" unfolding n_def by linarith
  ultimately have "a < of_int (2 ^ nat (bitlen n))" by linarith
  then have "a < 2 ^ nat (bitlen n)" by simp
  then have hi: "a < pow_int 2 (ilog2 a + 1)" using pos by (simp add: e pow_int_def)
  from lo hi show ?thesis by simp
next
  case False
  define c where "c = \<lceil>1 / a\<rceil>"
  define k where "k = bitlen (c - 1)"
  have a1: "a < 1" using False by simp
  have inv: "1 < 1 / a" using assms a1 by simp
  have c2: "2 \<le> c" using inv by (simp add: c_def)
  have e: "ilog2 a = - k" using False by (simp add: ilog2_def k_def c_def)
  have cpos: "0 < c - 1" using c2 by simp
  from bitlen_bounds[OF cpos] have b: "2 ^ nat (k - 1) \<le> c - 1" "c - 1 < 2 ^ nat k"
    by (simp_all add: k_def)
  have kpos: "0 < k"
  proof (rule ccontr)
    assume "\<not> 0 < k"
    then have "nat k = 0" by simp
    with b(2) cpos show False by simp
  qed
  have up: "1 / a \<le> of_int c" by (simp add: c_def)
  have "c \<le> 2 ^ nat k" using b(2) by simp
  then have "(of_int c :: rat) \<le> of_int (2 ^ nat k)" by (simp only: of_int_le_iff)
  also have "\<dots> = 2 ^ nat k" by simp
  finally have "(of_int c :: rat) \<le> 2 ^ nat k" .
  with up have "1 / a \<le> 2 ^ nat k" by linarith
  then have "1 \<le> 2 ^ nat k * a" using assms by (simp add: pos_divide_le_eq)
  then have "1 / 2 ^ nat k \<le> a" by (simp add: pos_divide_le_eq mult.commute)
  then have lo: "pow_int 2 (ilog2 a) \<le> a" using kpos by (simp add: e pow_int_def)
  have "of_int (c - 1) < 1 / a" unfolding c_def by simp linarith
  moreover have "(of_int (2 ^ nat (k - 1)) :: rat) \<le> of_int (c - 1)" using b(1) by (simp only: of_int_le_iff)
  moreover have "(of_int (2 ^ nat (k - 1)) :: rat) = 2 ^ nat (k - 1)" by simp
  ultimately have "2 ^ nat (k - 1) < 1 / a" by linarith
  then have "2 ^ nat (k - 1) * a < 1" using assms by (simp add: pos_less_divide_eq)
  then have "a < 1 / 2 ^ nat (k - 1)" by (simp add: pos_less_divide_eq mult.commute)
  moreover have "pow_int 2 (ilog2 a + 1) = 1 / 2 ^ nat (k - 1)"
    using kpos by (auto simp: e pow_int_def)
  ultimately have hi: "a < pow_int 2 (ilog2 a + 1)" by simp
  from lo hi show ?thesis by simp
qed

lemma roundHalfEven_int: "roundHalfEven (of_int k) = k"
  by (simp add: roundHalfEven_def)

lemma ilog2_int:
  assumes "0 < n" "n < 2 ^ 53"
  shows "0 \<le> ilog2 (of_int n) \<and> ilog2 (of_int n) \<le> 52"
proof -
  have e: "ilog2 (of_int n) = bitlen n - 1"
    using assms by (simp add: ilog2_def)
  from bitlen_bounds[OF assms(1)]
  have b: "2 ^ nat (bitlen n - 1) \<le> n" and b2: "n < 2 ^ nat (bitlen n)" by simp_all
  have pos: "0 < bitlen n"
  proof (rule ccontr)
    assume "\<not> 0 < bitlen n"
    then have "nat (bitlen n) = 0" by simp
    with b2 assms(1) show False by simp
  qed
  have "(2::int) ^ nat (bitlen n - 1) < 2 ^ 53" using b assms(2) by linarith
  then have "nat (bitlen n - 1) < 53" by (simp only: power_strict_increasing_iff[of 2]) 
  then show ?thesis using e pos by simp
qed

lemma roundDouble_int:
  assumes "0 \<le> n" "n < 2 ^ 53"
  shows "roundDouble (of_int n) = Fin (of_int n)"
proof (cases "n = 0")
  case True
  then show ?thesis by (simp add: roundDouble_def)
next
  case False
  then have pos: "0 < n" using assms by simp
  have e: "0 \<le> ilog2 (of_int n)" "ilog2 (of_int n) \<le> 52"
    using ilog2_int[OF pos assms(2)] by simp_all
  define k where "k = nat (52 - ilog2 (of_int n))"
  have emax: "max (ilog2 (of_int n)) (- 1022) = ilog2 (of_int n)" using e by simp
  have u: "pow_int 2 (ilog2 (of_int n) - 52) = 1 / 2 ^ k"
    using e by (auto simp: pow_int_def k_def)
  have q: "(of_int n :: rat) / (1 / 2 ^ k) = of_int (n * 2 ^ k)" by simp
  have m: "roundHalfEven (of_int n / (1 / 2 ^ k)) = n * 2 ^ k"
    by (simp only: q roundHalfEven_int)
  have a: "\<bar>of_int n :: rat\<bar> = of_int n" using pos by simp
  have nz: "(of_int n :: rat) \<noteq> 0" "(0::rat) < of_int n" using pos by simp_all
  have "roundDouble (of_int n) = Fin (of_int (n * 2 ^ k) * (1 / 2 ^ k))"
    unfolding roundDouble_def Let_def a emax u m using nz e by simp
  then show ?thesis by simp
qed

lemma takeWhile_all: "list_all P xs \<Longrightarrow> takeWhile P xs = xs"
  by (simp add: list_all_iff)

lemma dropWhile_all: "list_all P xs \<Longrightarrow> dropWhile P xs = []"
  by (simp add: list_all_iff)

lemma parseUnsignedDecimal_digits:
  assumes "w \<noteq> []" "list_all isDigit w"
  shows "parseUnsignedDecimal w = Some (of_int (digitsVal 10 w))"
  using assms
  by (simp add: parseUnsignedDecimal_def Let_def takeWhile_all dropWhile_all parseExponent_def pow_int_def)

lemma digit_chars:
  "isDigit c \<Longrightarrow> c \<noteq> CHR ''x'' \<and> c \<noteq> CHR ''X'' \<and> c \<noteq> CHR ''o'' \<and> c \<noteq> CHR ''O''
     \<and> c \<noteq> CHR ''b'' \<and> c \<noteq> CHR ''B'' \<and> c \<noteq> CHR ''-'' \<and> c \<noteq> CHR ''+'' \<and> c \<noteq> CHR ''I''"
  by (auto simp: isDigit_def)

lemma take2_digits:
  assumes "list_all isDigit w"
  shows "take 2 w \<noteq> [a, CHR ''x''] \<and> take 2 w \<noteq> [a, CHR ''X''] \<and> take 2 w \<noteq> [a,  CHR ''o'']
     \<and> take 2 w \<noteq> [a, CHR ''O''] \<and> take 2 w \<noteq> [a, CHR ''b''] \<and> take 2 w \<noteq> [a, CHR ''B'']"
proof (cases w)
  case Nil
  then show ?thesis by simp
next
  case (Cons c cs)
  show ?thesis
  proof (cases cs)
    case Nil
    then show ?thesis using Cons by simp
  next
    case (Cons d ds)
    then have "isDigit d" using assms \<open>w = c # cs\<close> by simp
    then show ?thesis using digit_chars[of d] Cons \<open>w = c # cs\<close> by (simp add: numeral_2_eq_2)
  qed
qed

lemma Number_str_digits:
  assumes "w \<noteq> []" "list_all isDigit w" "digitsVal 10 w < 2 ^ 53"
  shows "Number_str w = Fin (of_int (digitsVal 10 w))"
proof -
  have t: "trim w = w" using assms(2) by (rule trim_digits)
  have hd: "isDigit (hd w)" using assms(1,2) by (cases w) auto
  have sign: "hd w \<noteq> CHR ''-''" "hd w \<noteq> CHR ''+''" using digit_chars[OF hd] by simp_all
  have inf: "w \<noteq> ''Infinity''" using digit_chars[OF hd] by auto
  have nonneg: "0 \<le> digitsVal 10 w" using digitsVal_bounds[OF assms(2)] by simp
  show ?thesis
    unfolding Number_str_def Let_def t
    using assms(1) take2_digits[OF assms(2)] sign inf
    by (simp add: parseUnsignedDecimal_digits[OF assms(1,2)] roundDouble_int[OF nonneg assms(3)])
qed


text \<open>The texts of the examples, converted.\<close>

lemma Number_str_one_digit:
  assumes "isDigit c"
  shows "trim [c] = [c] \<and> Number_str [c] = Fin (of_int (digitsVal 10 [c]))"
proof -
  have d: "list_all isDigit [c]" using assms by simp
  have "digitsVal 10 [c] < 10 ^ length [c]" using digitsVal_bounds[OF d] by simp
  then have "digitsVal 10 [c] < 2 ^ 53" by simp
  then show ?thesis using trim_digits[OF d] Number_str_digits[of "[c]"] d by simp
qed

lemma Number_str_eval:
  "trim ''1'' = ''1''" "Number_str ''1'' = Fin 1"
  "trim ''3'' = ''3''" "Number_str ''3'' = Fin 3"
  "trim ''9'' = ''9''" "Number_str ''9'' = Fin 9"
  "trim ''abc'' = ''abc''" "Number_str ''abc'' = NaN"
  "trim ''2.5'' = ''2.5''"
proof -
  show "trim ''1'' = ''1''" "Number_str ''1'' = Fin 1"
    using Number_str_one_digit[of "CHR ''1''"] by (simp_all add: isDigit_def digitsVal_def hexVal_def)
  show "trim ''3'' = ''3''" "Number_str ''3'' = Fin 3"
    using Number_str_one_digit[of "CHR ''3''"] by (simp_all add: isDigit_def digitsVal_def hexVal_def)
  show "trim ''9'' = ''9''" "Number_str ''9'' = Fin 9"
    using Number_str_one_digit[of "CHR ''9''"] by (simp_all add: isDigit_def digitsVal_def hexVal_def)
  show abc: "trim ''abc'' = ''abc''"
    by (rule trim_no_space) (simp_all add: isWhiteSpace_def)
  show "Number_str ''abc'' = NaN"
    by (simp add: Number_str_def abc parseUnsignedDecimal_def isDigit_def)
  show "trim ''2.5'' = ''2.5''"
    by (rule trim_no_space) (simp_all add: isWhiteSpace_def)
qed

lemma Number_str_2_5: "Number_str ''2.5'' = Fin (5 / 2)"
  by code_simp

lemma Number_str_eval_more:
  "trim ''0'' = ''0''" "Number_str ''0'' = Fin 0"
  "trim ''2'' = ''2''" "Number_str ''2'' = Fin 2"
  "trim ''x'' = ''x''" "Number_str ''x'' = NaN"
  "trim '' '' = []" "trim [] = []" "Number_str [] = Fin 0"
proof -
  show "trim ''0'' = ''0''" "Number_str ''0'' = Fin 0"
    using Number_str_one_digit[of "CHR ''0''"] by (simp_all add: isDigit_def digitsVal_def hexVal_def)
  show "trim ''2'' = ''2''" "Number_str ''2'' = Fin 2"
    using Number_str_one_digit[of "CHR ''2''"] by (simp_all add: isDigit_def digitsVal_def hexVal_def)
  show x: "trim ''x'' = ''x''"
    by (rule trim_no_space) (simp_all add: isWhiteSpace_def)
  show "Number_str ''x'' = NaN"
    by (simp add: Number_str_def x parseUnsignedDecimal_def isDigit_def)
  show "trim '' '' = []" "trim [] = []"
    by (simp_all add: trim_def isWhiteSpace_def)
  then show "Number_str [] = Fin 0"
    by (simp add: Number_str_def)
qed

section \<open>The smile score\<close>

lemma in_range_iff: "(js_ge n (Fin 0) \<and> js_le n (Fin 3)) = (\<exists>q. n = Fin q \<and> 0 \<le> q \<and> q \<le> 3)"
  by (cases n) (auto simp: js_ge_def js_le_def)

lemma toNumberMaybe_finite: "toNumberMaybe v = Some n \<Longrightarrow> \<exists>q. n = Fin q"
  by (cases v; cases n) (auto simp: Let_def split: if_splits)

lemma set_collectCandidates:
  "set (collectCandidates rs cs) =
     set cs \<union> {n. \<exists>r\<in>set rs. toNumberMaybe r = Some n \<and> js_ge n (Fin 0) \<and> js_le n (Fin 3)}"
  by (induction rs arbitrary: cs) (auto split: option.splits)

lemma finite_Fin_preimage: "finite {q. Fin q \<in> set xs}"
  using finite_vimageI[of "set xs" Fin] by (simp add: vimage_def inj_def)

lemma Max_insert_max:
  "finite S \<Longrightarrow> Max (insert (max a q) S) = Max (insert a (insert q S))" for a :: rat
  by (cases "S = {}") (simp_all add: max.assoc)

lemma foldl_max2_Fin:
  "\<forall>n\<in>set xs. \<exists>q. n = Fin q \<Longrightarrow> foldl max2 (Fin a) xs = Fin (Max (insert a {q. Fin q \<in> set xs}))"
proof (induction xs arbitrary: a)
  case Nil
  then show ?case by simp
next
  case (Cons x xs)
  then obtain q where x: "x = Fin q" by auto
  have step: "max2 (Fin a) x = Fin (max a q)"
    by (simp add: x max2_def max_def)
  have "foldl max2 (Fin a) (x # xs) = Fin (Max (insert (max a q) {q. Fin q \<in> set xs}))"
    using Cons by (simp add: step)
  moreover have "insert a {q'. Fin q' \<in> set (x # xs)} = insert a (insert q {q. Fin q \<in> set xs})"
    by (auto simp: x)
  ultimately show ?case
    by (simp add: Max_insert_max[OF finite_Fin_preimage])
qed

lemma Math_max_Fin:
  assumes "\<forall>n\<in>set xs. \<exists>q. n = Fin q" "xs \<noteq> []"
  shows "Math_max xs = Fin (Max {q. Fin q \<in> set xs})"
proof -
  obtain x ys where xs: "xs = x # ys" using assms(2) by (cases xs) auto
  then obtain q where x: "x = Fin q" using assms(1) by auto
  have "Math_max xs = foldl max2 (Fin q) ys"
    by (simp add: Math_max_def xs x max2_def)
  also have "\<dots> = Fin (Max (insert q {q. Fin q \<in> set ys}))"
    using assms(1) by (intro foldl_max2_Fin) (simp add: xs)
  also have "insert q {q. Fin q \<in> set ys} = {q. Fin q \<in> set xs}"
    by (auto simp: xs x)
  finally show ?thesis .
qed

lemma candidates_set:
  "set (collectCandidates (raws p) []) =
     Fin ` {q. \<exists>r\<in>set (raws p). toNumberMaybe r = Some (Fin q) \<and> 0 \<le> q \<and> q \<le> 3}"
  unfolding set_collectCandidates in_range_iff by auto

lemma fallback_eq:
  "(case toNumberMaybe v of
          None \<Rightarrow> Fin (- 1)
        | Some fallback \<Rightarrow>
            if js_ge fallback (Fin 0) \<and> js_le fallback (Fin 3) then fallback else Fin (- 1)) =
       (case toNumberMaybe v of
          Some (Fin q) \<Rightarrow> if 0 \<le> q \<and> q \<le> 3 then Fin q else Fin (- 1)
        | _ \<Rightarrow> Fin (- 1))"
  by (auto simp: js_ge_def js_le_def split: option.splits jsnum.splits)

lemma computeSmileScore_Q:
  assumes Q: "Q = {q. \<exists>r\<in>set (raws p). toNumberMaybe r = Some (Fin q) \<and> 0 \<le> q \<and> q \<le> 3}"
  shows "computeSmileScore p =
      (if Q \<noteq> {} then Fin (Max Q)
       else (case toNumberMaybe (karakter p) of
          Some (Fin q) \<Rightarrow> if 0 \<le> q \<and> q \<le> 3 then Fin q else Fin (- 1)
        | _ \<Rightarrow> Fin (- 1)))"
proof -
  define cs where "cs = collectCandidates (raws p) []"
  have cs: "set cs = Fin ` Q"
    unfolding cs_def Q by (rule candidates_set)
  have lhs: "computeSmileScore p =
      (if cs \<noteq> [] then Math_max cs
       else (case toNumberMaybe (karakter p) of
          Some (Fin q) \<Rightarrow> if 0 \<le> q \<and> q \<le> 3 then Fin q else Fin (- 1)
        | _ \<Rightarrow> Fin (- 1)))"
    unfolding computeSmileScore_def Let_def fallback_eq cs_def by simp
  show ?thesis
  proof (cases "Q = {}")
    case True
    then have "cs = []" using cs by simp
    then show ?thesis using True lhs by simp
  next
    case False
    then have ne: "cs \<noteq> []" using cs by auto
    have "\<forall>n\<in>set cs. \<exists>q. n = Fin q" using cs by auto
    then have "Math_max cs = Fin (Max {q. Fin q \<in> set cs})"
      using ne by (rule Math_max_Fin)
    moreover have "{q. Fin q \<in> set cs} = Q" using cs by auto
    ultimately show ?thesis
      using False ne lhs by simp
  qed
qed

lemma in_range_int: "q \<in> \<int> \<Longrightarrow> 0 \<le> q \<Longrightarrow> q \<le> 3 \<Longrightarrow> q \<in> {0, 1, 2, 3}" for q :: rat
proof -
  assume "q \<in> \<int>" "0 \<le> q" "q \<le> 3"
  then obtain z :: int where z: "q = of_int z" by (auto elim: Ints_cases)
  with \<open>0 \<le> q\<close> \<open>q \<le> 3\<close> have "0 \<le> z" "z \<le> 3" by simp_all
  then have "z = 0 \<or> z = 1 \<or> z = 2 \<or> z = 3" by arith
  then show ?thesis using z by auto
qed

lemma qualifying_finite:
  "finite {q. \<exists>r\<in>set rs. toNumberMaybe r = Some (Fin q) \<and> 0 \<le> q \<and> q \<le> (3::rat)}"
proof -
  have "{q. \<exists>r\<in>set rs. toNumberMaybe r = Some (Fin q) \<and> 0 \<le> q \<and> q \<le> (3::rat)}
      \<subseteq> (\<lambda>r. case toNumberMaybe r of Some (Fin q) \<Rightarrow> q | _ \<Rightarrow> 0) ` set rs"
    by (force simp: image_iff)
  then show ?thesis by (rule finite_subset) simp
qed

lemma computeSmileScore_range:
  "(\<exists>q. computeSmileScore p = Fin q \<and> 0 \<le> q \<and> q \<le> 3) \<or> computeSmileScore p = Fin (- 1)"
proof -
  define Q where "Q = {q. \<exists>r\<in>set (raws p). toNumberMaybe r = Some (Fin q) \<and> 0 \<le> q \<and> q \<le> 3}"
  have fin: "finite Q" unfolding Q_def by (rule qualifying_finite)
  note eq = computeSmileScore_Q[OF Q_def]
  show ?thesis
  proof (cases "Q = {}")
    case True
    then show ?thesis
      unfolding eq by (auto split: option.splits jsnum.splits)
  next
    case False
    then have "Max Q \<in> Q" using fin by (rule_tac Max_in)
    then have "0 \<le> Max Q \<and> Max Q \<le> 3" by (simp add: Q_def)
    then show ?thesis
      unfolding eq using False by simp
  qed
qed

lemma computeSmileScore_integer:
  assumes "\<forall>r\<in>set (karakter p # raws p). \<forall>q. toNumberMaybe r = Some (Fin q) \<longrightarrow> q \<in> \<int>"
  shows "computeSmileScore p \<in> {Fin 0, Fin 1, Fin 2, Fin 3, Fin (- 1)}"
proof -
  define Q where "Q = {q. \<exists>r\<in>set (raws p). toNumberMaybe r = Some (Fin q) \<and> 0 \<le> q \<and> q \<le> 3}"
  have fin: "finite Q" unfolding Q_def by (rule qualifying_finite)
  note eq = computeSmileScore_Q[OF Q_def]
  show ?thesis
  proof (cases "Q = {}")
    case True
    show ?thesis
    proof (cases "toNumberMaybe (karakter p)")
      case None
      then show ?thesis unfolding eq using True by simp
    next
      case (Some n)
      show ?thesis
      proof (cases n)
        case (Fin q)
        then have "q \<in> \<int>" using assms Some by simp
        then have "0 \<le> q \<and> q \<le> 3 \<Longrightarrow> q \<in> {0, 1, 2, 3}" using in_range_int[of q] by blast
        then show ?thesis unfolding eq using True Some Fin by auto
      qed (use True Some in \<open>simp_all add: eq\<close>)
    qed
  next
    case False
    then have "Max Q \<in> Q" using fin by (rule_tac Max_in)
    then have "0 \<le> Max Q \<and> Max Q \<le> 3" "Max Q \<in> \<int>" using assms by (auto simp: Q_def)
    then have "Max Q \<in> {0, 1, 2, 3}" using in_range_int[of "Max Q"] by blast
    then show ?thesis
      unfolding eq using False by auto
  qed
qed


lemma set_raws:
  "set (raws p) = {karakter1 p, karakter2 p, karakter3 p, karakter4 p, karakter5 p,
                   karakter6 p, karakter7 p, karakter8 p, karakter9 p, karakter10 p}"
  by (simp add: raws_def)

text \<open>
  Claim C1. Over the ten per-criterion fields \<^verbatim>\<open>karakter1\<close> to \<^verbatim>\<open>karakter10\<close> and the
  legacy \<^verbatim>\<open>karakter\<close>, the score is the largest value among those of the ten fields that
  \<^verbatim>\<open>toNumberMaybe\<close> reads as a finite number in the closed range from 0 to 3 (so 4 and 5
  never count); when none of the ten qualifies it is the legacy \<^verbatim>\<open>karakter\<close> if that
  reads as a finite number in the same range, and \<open>-1\<close> (unknown) otherwise. The four
  examples of the specification follow: criteria \<open>[4, 2, 5, "1"]\<close> give 2; criteria in
  \<open>{4, 5}\<close> with legacy \<open>"3"\<close> give 3; no qualifying criterion with legacy \<open>"9"\<close>
  gives unknown; no criterion at all with legacy \<open>"1"\<close> gives 1. Three more examples
  have the deciding value further on: criteria \<open>[0, 0, 3]\<close> give 3; ten criteria of which
  only the seventh, the ninth and the tenth qualify, the tenth being \<open>"2"\<close>, give 2 whatever
  the legacy value; and a blank criterion does not qualify.
\<close>

theorem computeSmileScore_max_or_fallback:
  "computeSmileScore p =
     (let Q = {q. \<exists>r\<in>{karakter1 p, karakter2 p, karakter3 p, karakter4 p, karakter5 p,
                        karakter6 p, karakter7 p, karakter8 p, karakter9 p, karakter10 p}.
                   toNumberMaybe r = Some (Fin q) \<and> 0 \<le> q \<and> q \<le> 3} in
      if Q \<noteq> {} then Fin (Max Q)
      else (case toNumberMaybe (karakter p) of
          Some (Fin q) \<Rightarrow> if 0 \<le> q \<and> q \<le> 3 then Fin q else Fin (- 1)
        | _ \<Rightarrow> Fin (- 1)))
   \<and> computeSmileScore (mkProps [JNum (Fin 4), JNum (Fin 2), JNum (Fin 5), JStr ''1''] JUndefined) = Fin 2
   \<and> computeSmileScore (mkProps [JNum (Fin 4), JNum (Fin 5), JNum (Fin 5), JNum (Fin 4)] (JStr ''3'')) = Fin 3
   \<and> computeSmileScore (mkProps [JUndefined, JStr ''abc'', JNull] (JStr ''9'')) = Fin (- 1)
   \<and> computeSmileScore (mkProps [] (JStr ''1'')) = Fin 1
   \<and> computeSmileScore (mkProps [JNum (Fin 0), JNum (Fin 0), JNum (Fin 3)] JUndefined) = Fin 3
   \<and> computeSmileScore (mkProps [JNum (Fin 4), JUndefined, JNull, JStr ''x'', JNum (Fin 5), JStr '' '',
                                 JNum (Fin 1), JNum (Fin 4), JStr ''0'', JStr ''2''] (JStr ''3'')) = Fin 2
   \<and> computeSmileScore (mkProps [JStr '' ''] (JNum (Fin 1))) = Fin 1"
proof -
  have general: "computeSmileScore p =
     (let Q = {q. \<exists>r\<in>{karakter1 p, karakter2 p, karakter3 p, karakter4 p, karakter5 p,
                        karakter6 p, karakter7 p, karakter8 p, karakter9 p, karakter10 p}.
                   toNumberMaybe r = Some (Fin q) \<and> 0 \<le> q \<and> q \<le> 3} in
      if Q \<noteq> {} then Fin (Max Q)
      else (case toNumberMaybe (karakter p) of
          Some (Fin q) \<Rightarrow> if 0 \<le> q \<and> q \<le> 3 then Fin q else Fin (- 1)
        | _ \<Rightarrow> Fin (- 1)))"
    unfolding Let_def by (rule computeSmileScore_Q) (simp only: set_raws)
  have e1: "computeSmileScore (mkProps [JNum (Fin 4), JNum (Fin 2), JNum (Fin 5), JStr ''1''] JUndefined) = Fin 2"
    by (simp add: computeSmileScore_def raws_def mkProps_def criterion_def Number_str_eval
        js_ge_def js_le_def Math_max_def max2_def)
  have e2: "computeSmileScore (mkProps [JNum (Fin 4), JNum (Fin 5), JNum (Fin 5), JNum (Fin 4)] (JStr ''3'')) = Fin 3"
    by (simp add: computeSmileScore_def raws_def mkProps_def criterion_def Number_str_eval
        js_ge_def js_le_def)
  have e3: "computeSmileScore (mkProps [JUndefined, JStr ''abc'', JNull] (JStr ''9'')) = Fin (- 1)"
    by (simp add: computeSmileScore_def raws_def mkProps_def criterion_def Number_str_eval
        js_ge_def js_le_def)
  have e4: "computeSmileScore (mkProps [] (JStr ''1'')) = Fin 1"
    by (simp add: computeSmileScore_def raws_def mkProps_def criterion_def Number_str_eval
        js_ge_def js_le_def)
  have e5: "computeSmileScore (mkProps [JNum (Fin 0), JNum (Fin 0), JNum (Fin 3)] JUndefined) = Fin 3"
    by (simp add: computeSmileScore_def raws_def mkProps_def criterion_def
        js_ge_def js_le_def Math_max_def max2_def)
  have e6: "computeSmileScore (mkProps [JNum (Fin 4), JUndefined, JNull, JStr ''x'', JNum (Fin 5), JStr '' '',
                                 JNum (Fin 1), JNum (Fin 4), JStr ''0'', JStr ''2''] (JStr ''3'')) = Fin 2"
    by (simp add: computeSmileScore_def raws_def mkProps_def criterion_def Number_str_eval
        Number_str_eval_more js_ge_def js_le_def Math_max_def max2_def)
  have e7: "computeSmileScore (mkProps [JStr '' ''] (JNum (Fin 1))) = Fin 1"
    by (simp add: computeSmileScore_def raws_def mkProps_def criterion_def Number_str_eval_more
        js_ge_def js_le_def)
  from general e1 e2 e3 e4 e5 e6 e7 show ?thesis by blast
qed

theorem computeSmileScore_max_or_fallback_witness:
  "computeSmileScore (mkProps [JNum (Fin 1), JNum (Fin 4), JStr ''0'', JUndefined, JNum (Fin 5),
                               JStr ''abc'', JNull, JNum (Fin 2), JNum (Fin 5), JStr ''3''] JUndefined)
     = Fin (Max {1, 0, 2, 3})"
proof -
  let ?p = "mkProps [JNum (Fin 1), JNum (Fin 4), JStr ''0'', JUndefined, JNum (Fin 5),
                     JStr ''abc'', JNull, JNum (Fin 2), JNum (Fin 5), JStr ''3''] JUndefined"
  have f: "karakter1 ?p = JNum (Fin 1)" "karakter2 ?p = JNum (Fin 4)" "karakter3 ?p = JStr ''0''"
    "karakter4 ?p = JUndefined" "karakter5 ?p = JNum (Fin 5)" "karakter6 ?p = JStr ''abc''"
    "karakter7 ?p = JNull" "karakter8 ?p = JNum (Fin 2)" "karakter9 ?p = JNum (Fin 5)"
    "karakter10 ?p = JStr ''3''"
    by (simp_all add: mkProps_def criterion_def)
  have "{q. \<exists>r\<in>{karakter1 ?p, karakter2 ?p, karakter3 ?p, karakter4 ?p, karakter5 ?p,
                   karakter6 ?p, karakter7 ?p, karakter8 ?p, karakter9 ?p, karakter10 ?p}.
            toNumberMaybe r = Some (Fin q) \<and> 0 \<le> q \<and> q \<le> 3} = {1, 0, 2, 3}"
    unfolding f by (auto simp: Number_str_eval Number_str_eval_more)
  then show ?thesis
    using computeSmileScore_max_or_fallback[of ?p]
    by (simp add: Let_def)
qed

text \<open>
  Claim C2, as the code has it. The claim says that the score is always one of the
  integers 0, 1, 2, 3 or the unknown value. The code never rounds: a criterion \<open>2.5\<close>, or
  a legacy text \<open>"2.5"\<close>, comes out as the score \<open>2.5\<close>.
\<close>

theorem computeSmileScore_noninteger_counterexample:
  "computeSmileScore (mkProps [JNum (Fin (5 / 2))] JUndefined) = Fin (5 / 2)
   \<and> computeSmileScore (mkProps [] (JStr ''2.5'')) = Fin (5 / 2)
   \<and> Fin (5 / 2) \<notin> {Fin 0, Fin 1, Fin 2, Fin 3, Fin (- 1)}"
proof -
  have c1: "computeSmileScore (mkProps [JNum (Fin (5 / 2))] JUndefined) = Fin (5 / 2)"
    by (simp add: computeSmileScore_def raws_def mkProps_def criterion_def
        js_ge_def js_le_def Math_max_def max2_def)
  have c2: "computeSmileScore (mkProps [] (JStr ''2.5'')) = Fin (5 / 2)"
    by (simp add: computeSmileScore_def raws_def mkProps_def criterion_def Number_str_2_5 Number_str_eval
        js_ge_def js_le_def)
  have c3: "Fin (5 / 2) \<notin> {Fin 0, Fin 1, Fin 2, Fin 3, Fin (- 1)}"
    by simp
  from c1 c2 c3 show ?thesis by blast
qed

text \<open>
  Claim C2, amended. The score is either a finite number in the closed range from 0 to 3
  or the unknown value \<open>-1\<close>; and it is one of 0, 1, 2, 3 and \<open>-1\<close> whenever every
  rating field that \<^verbatim>\<open>toNumberMaybe\<close> reads as a number is an integer.
\<close>

theorem computeSmileScore_range_or_unknown:
  "((\<exists>q. computeSmileScore p = Fin q \<and> 0 \<le> q \<and> q \<le> 3) \<or> computeSmileScore p = Fin (- 1))
   \<and> ((\<forall>r\<in>set (karakter p # raws p). \<forall>q. toNumberMaybe r = Some (Fin q) \<longrightarrow> q \<in> \<int>)
        \<longrightarrow> computeSmileScore p \<in> {Fin 0, Fin 1, Fin 2, Fin 3, Fin (- 1)})"
  using computeSmileScore_range[of p] computeSmileScore_integer[of p] by blast

theorem computeSmileScore_range_or_unknown_witness:
  "computeSmileScore (mkProps [JNum (Fin 4), JNum (Fin 2), JStr ''1''] (JNum (Fin 3)))
     \<in> {Fin 0, Fin 1, Fin 2, Fin 3, Fin (- 1)}"
proof -
  have "\<forall>r\<in>set (karakter (mkProps [JNum (Fin 4), JNum (Fin 2), JStr ''1''] (JNum (Fin 3)))
            # raws (mkProps [JNum (Fin 4), JNum (Fin 2), JStr ''1''] (JNum (Fin 3)))).
          \<forall>q. toNumberMaybe r = Some (Fin q) \<longrightarrow> q \<in> \<int>"
    by (auto simp: raws_def mkProps_def criterion_def Number_str_eval)
  then show ?thesis
    using computeSmileScore_range_or_unknown[of "mkProps [JNum (Fin 4), JNum (Fin 2), JStr ''1''] (JNum (Fin 3))"]
    by blast
qed


section \<open>Dates\<close>

lemma list_all_take: "list_all P xs \<Longrightarrow> list_all P (take n xs)"
  by (auto simp: list_all_iff dest: in_set_takeD)

lemma list_all_drop: "list_all P xs \<Longrightarrow> list_all P (drop n xs)"
  by (auto simp: list_all_iff dest: in_set_dropD)

lemma parseDato_wrong_length: "length (trim s) \<noteq> 8 \<Longrightarrow> parseDato (Some s) = Fin 0"
  by (simp add: parseDato_def)

lemma parseDato_digits:
  assumes "length (trim s) = 8" "list_all isDigit (trim s)"
  shows "parseDato (Some s) =
     Fin (of_int (digitsVal 10 (take 4 (drop 4 (trim s))) * 10000
                  + digitsVal 10 (take 2 (drop 2 (trim s))) * 100
                  + digitsVal 10 (take 2 (trim s))))"
proof -
  define d where "d = trim s"
  define w where "w = take 4 (drop 4 d) @ take 2 (drop 2 d) @ take 2 d"
  have len: "length w = 8" using assms(1) by (simp add: w_def d_def)
  have dig: "list_all isDigit w"
    using assms(2) by (simp add: w_def d_def list_all_take list_all_drop)
  have ne: "w \<noteq> []" using len by auto
  have "digitsVal 10 w < 10 ^ length w" using digitsVal_bounds[OF dig] by simp
  then have small: "digitsVal 10 w < 2 ^ 53" by (simp add: len)
  have val: "digitsVal 10 w = digitsVal 10 (take 4 (drop 4 d)) * 10000
                  + digitsVal 10 (take 2 (drop 2 d)) * 100 + digitsVal 10 (take 2 d)"
    using assms(1) by (simp add: w_def d_def digitsVal_append algebra_simps)
  have "parseDato (Some s) = Number_str w"
    using assms(1) by (simp add: parseDato_def Let_def w_def d_def)
  also have "\<dots> = Fin (of_int (digitsVal 10 w))"
    using ne dig small by (rule Number_str_digits)
  finally show ?thesis unfolding val d_def .
qed

lemma parseDato_digits_nonneg:
  assumes "length (trim s) = 8" "list_all isDigit (trim s)"
  shows "js_le (Fin 0) (parseDato (Some s))"
proof -
  have "0 \<le> digitsVal 10 (take 4 (drop 4 (trim s)))" "0 \<le> digitsVal 10 (take 2 (drop 2 (trim s)))"
       "0 \<le> digitsVal 10 (take 2 (trim s))"
    using assms(2) by (simp_all add: digitsVal_bounds list_all_take list_all_drop)
  then show ?thesis
    unfolding parseDato_digits[OF assms] by (simp add: js_le_def)
qed

lemma parseDato_not_NaN:
  assumes "length (trim s) \<noteq> 8 \<or> list_all isDigit (trim s)"
  shows "parseDato (Some s) \<noteq> NaN"
proof (cases "length (trim s) = 8")
  case True
  then have "list_all isDigit (trim s)" using assms by simp
  from parseDato_digits[OF True this] show ?thesis by simp
next
  case False
  then show ?thesis by (simp add: parseDato_wrong_length)
qed

lemma digits_05032024: "list_all isDigit ''05032024''"
  by (simp add: isDigit_def)

lemma parseDato_05032024: "parseDato (Some ''05032024'') = Fin 20240305"
proof -
  have t: "trim ''05032024'' = ''05032024''" using digits_05032024 by (rule trim_digits)
  show ?thesis
    using parseDato_digits[of "''05032024''"] digits_05032024
    by (simp add: t digitsVal_def hexVal_def)
qed

lemma parseDato_2024: "parseDato (Some ''2024'') = Fin 0"
proof -
  have "list_all isDigit ''2024''" by (simp add: isDigit_def)
  then have t: "trim ''2024'' = ''2024''" by (rule trim_digits)
  show ?thesis by (simp add: parseDato_def t)
qed

lemma trim_abcdefgh: "trim ''abcdefgh'' = ''abcdefgh''"
  by (rule trim_no_space) (simp_all add: isWhiteSpace_def)

lemma parseDato_abcdefgh: "parseDato (Some ''abcdefgh'') = NaN"
  by (simp add: parseDato_def trim_abcdefgh Number_str_def trim_no_space isWhiteSpace_def
      parseUnsignedDecimal_def isDigit_def)


text \<open>
  Claim C4, as the code has it. The claim says that every malformed date parses to 0.
  Only the length is tested: a text of eight characters that are not digits goes through
  \<^verbatim>\<open>Number\<close> and parses to \<open>NaN\<close>, which is not 0 and is not below any date.
\<close>

theorem parseDato_malformed_counterexample:
  "length (trim ''abcdefgh'') = 8
   \<and> parseDato (Some ''abcdefgh'') = NaN
   \<and> parseDato (Some ''abcdefgh'') \<noteq> Fin 0
   \<and> \<not> js_lt (parseDato (Some ''abcdefgh'')) (parseDato (Some ''05032024''))"
  by (simp add: parseDato_abcdefgh trim_abcdefgh)

text \<open>
  Claim C4, amended. A date whose trimmed text is eight digits parses to the integer
  \<open>yyyy * 10000 + mm * 100 + dd\<close> read from its digits in the order day, month, year
  (so \<open>"05032024"\<close> parses to \<open>20240305\<close>), and that integer is not below 0; a date
  whose trimmed text does not have eight characters parses to 0 (so does \<open>"2024"\<close>).
\<close>

theorem parseDato_rearranges:
  "(length (trim s) \<noteq> 8 \<longrightarrow> parseDato (Some s) = Fin 0)
   \<and> (length (trim s) = 8 \<and> list_all isDigit (trim s) \<longrightarrow>
        parseDato (Some s) =
          Fin (of_int (digitsVal 10 (take 4 (drop 4 (trim s))) * 10000
                       + digitsVal 10 (take 2 (drop 2 (trim s))) * 100
                       + digitsVal 10 (take 2 (trim s))))
        \<and> js_le (Fin 0) (parseDato (Some s)))
   \<and> parseDato (Some ''05032024'') = Fin 20240305
   \<and> parseDato (Some ''2024'') = Fin 0"
  using parseDato_wrong_length[of s] parseDato_digits[of s] parseDato_digits_nonneg[of s]
    parseDato_05032024 parseDato_2024
  by blast

theorem parseDato_rearranges_witness:
  "parseDato (Some '' 24121999 '') = Fin 19991224"
proof -
  have d: "list_all isDigit ''24121999''" by (simp add: isDigit_def)
  have t: "trim '' 24121999 '' = ''24121999''"
    by (simp add: trim_def isWhiteSpace_def)
  show ?thesis
    using parseDato_rearranges[of "'' 24121999 ''"] d
    by (simp add: t digitsVal_def hexVal_def)
qed

section \<open>The latest row of each place\<close>











section \<open>The registry and the geocoder: what a step changes\<close>

lemma fetchJsonOrNull_trace:
  "fetchJsonOrNull env url tr = Inr (v, tr') \<Longrightarrow> tr' = tr @ [Fetch url]"
  by (auto simp: fetchJsonOrNull_def split: response.splits if_splits option.splits)

lemma fetchJsonOrNull_null:
  "fetch_brreg env (length tr) url = Response st b \<Longrightarrow> st = 404 \<or> \<not> res_ok st \<Longrightarrow>
     fetchJsonOrNull env url tr = Inr (None, tr @ [Fetch url])"
  by (auto simp: fetchJsonOrNull_def)

lemma fetchBrregEntity_cases:
  assumes "fetchBrregEntity env nr tr = Inr (v, tr')"
  shows "(tr' = tr @ [Fetch (BRREG_UNDERENHET nr)]
            \<and> fetchJsonOrNull env (BRREG_UNDERENHET nr) tr = Inr (v, tr') \<and> hasOrgnr v)
       \<or> (tr' = tr @ [Fetch (BRREG_UNDERENHET nr), Fetch (BRREG_ENHET nr)]
            \<and> (\<exists>u e. fetchJsonOrNull env (BRREG_UNDERENHET nr) tr = Inr (u, tr @ [Fetch (BRREG_UNDERENHET nr)])
                  \<and> \<not> hasOrgnr u
                  \<and> fetchJsonOrNull env (BRREG_ENHET nr) (tr @ [Fetch (BRREG_UNDERENHET nr)]) = Inr (e, tr')
                  \<and> v = (if hasOrgnr e then e else None)))"
proof (cases "fetchJsonOrNull env (BRREG_UNDERENHET nr) tr")
  case (Inl err)
  then show ?thesis using assms by (simp add: fetchBrregEntity_def)
next
  case (Inr p)
  obtain u tr1 where p: "p = (u, tr1)" by (cases p)
  have tr1: "tr1 = tr @ [Fetch (BRREG_UNDERENHET nr)]"
    using Inr p by (auto dest: fetchJsonOrNull_trace)
  show ?thesis
  proof (cases "hasOrgnr u")
    case True
    then show ?thesis using assms Inr p tr1 by (simp add: fetchBrregEntity_def)
  next
    case False
    show ?thesis
    proof (cases "fetchJsonOrNull env (BRREG_ENHET nr) tr1")
      case (Inl err)
      then show ?thesis using assms \<open>fetchJsonOrNull env (BRREG_UNDERENHET nr) tr = Inr p\<close> p False
        by (simp add: fetchBrregEntity_def)
    next
      case (Inr q)
      obtain e tr2 where q: "q = (e, tr2)" by (cases q)
      have tr2: "tr2 = tr1 @ [Fetch (BRREG_ENHET nr)]"
        using Inr q by (auto dest: fetchJsonOrNull_trace)
      show ?thesis
        using assms \<open>fetchJsonOrNull env (BRREG_UNDERENHET nr) tr = Inr p\<close> p False Inr q tr1 tr2
        by (auto simp: fetchBrregEntity_def)
    qed
  qed
qed

lemma fetchBrregEntity_events:
  assumes "fetchBrregEntity env nr tr = Inr (v, tr')"
  shows "\<exists>new. tr' = tr @ new \<and> set new \<subseteq> {Fetch (BRREG_UNDERENHET nr), Fetch (BRREG_ENHET nr)}"
  using fetchBrregEntity_cases[OF assms] by auto

lemma brregLookup_hit:
  "nr \<in> dom (brregCache s) \<Longrightarrow> brregLookup env nr s = Inr s"
  by (simp add: brregLookup_def)

lemma brregLookup_miss:
  "nr \<notin> dom (brregCache s) \<Longrightarrow> fetchBrregEntity env nr (trace s) = Inr (v, tr) \<Longrightarrow>
   brregLookup env nr s =
     Inr (s\<lparr>brregLookups := brregLookups s + 1, brregCache := (brregCache s)(nr \<mapsto> v),
            trace := tr @ [Sleep (BRREG_DELAY_MS env)]\<rparr>)"
  by (simp add: brregLookup_def)

lemma brregLookup_cases:
  assumes "brregLookup env nr s = Inr s'"
  shows "(nr \<in> dom (brregCache s) \<and> s' = s)
       \<or> (nr \<notin> dom (brregCache s) \<and> (\<exists>v tr. fetchBrregEntity env nr (trace s) = Inr (v, tr)
             \<and> s' = s\<lparr>brregLookups := brregLookups s + 1, brregCache := (brregCache s)(nr \<mapsto> v),
                        trace := tr @ [Sleep (BRREG_DELAY_MS env)]\<rparr>))"
  using assms by (auto simp: brregLookup_def split: sum.splits if_splits)

lemma brregLookup_fields:
  assumes "brregLookup env nr s = Inr s'"
  shows "geocodeCache s' = geocodeCache s" "features s' = features s"
    "geocodeAttempts s' = geocodeAttempts s" "geocodeHits s' = geocodeHits s"
  using brregLookup_cases[OF assms] by auto

lemma brregLookup_keeps:
  assumes "brregLookup env nr s = Inr s'" "k \<in> dom (brregCache s)"
  shows "brregCache s' k = brregCache s k"
  using brregLookup_cases[OF assms(1)] assms(2) by (auto split: if_splits)

lemma brregLookup_trace:
  assumes "brregLookup env nr s = Inr s'"
  shows "\<exists>new. trace s' = trace s @ new
            \<and> set new \<subseteq> {Fetch (BRREG_UNDERENHET nr), Fetch (BRREG_ENHET nr), Sleep (BRREG_DELAY_MS env)}
            \<and> (nr \<in> dom (brregCache s) \<longrightarrow> new = [])"
proof -
  from brregLookup_cases[OF assms] show ?thesis
  proof
    assume "nr \<in> dom (brregCache s) \<and> s' = s"
    then show ?thesis by simp
  next
    assume "nr \<notin> dom (brregCache s) \<and> (\<exists>v tr. fetchBrregEntity env nr (trace s) = Inr (v, tr)
             \<and> s' = s\<lparr>brregLookups := brregLookups s + 1, brregCache := (brregCache s)(nr \<mapsto> v),
                        trace := tr @ [Sleep (BRREG_DELAY_MS env)]\<rparr>)"
    then obtain v tr where miss: "nr \<notin> dom (brregCache s)"
      and f: "fetchBrregEntity env nr (trace s) = Inr (v, tr)"
      and s': "trace s' = tr @ [Sleep (BRREG_DELAY_MS env)]"
      by auto
    from fetchBrregEntity_events[OF f] obtain new where
      new: "tr = trace s @ new" "set new \<subseteq> {Fetch (BRREG_UNDERENHET nr), Fetch (BRREG_ENHET nr)}"
      by blast
    have 1: "trace s' = trace s @ (new @ [Sleep (BRREG_DELAY_MS env)])"
      by (simp add: s' new)
    have 2: "set (new @ [Sleep (BRREG_DELAY_MS env)])
        \<subseteq> {Fetch (BRREG_UNDERENHET nr), Fetch (BRREG_ENHET nr), Sleep (BRREG_DELAY_MS env)}"
      using new(2) by auto
    from 1 2 miss show ?thesis by blast
  qed
qed

text \<open>The organisation number step 4a works with.\<close>

lemma main_4a_None:
  assumes "\<not> isValidOrgnr (orgnummer r)"
  shows "main_4a env r s =
     Inr ((None, (if buildMatAdresseFallback r \<noteq> [] then Some (buildMatAdresseFallback r) else None), MAT), s)"
  using assms by (simp add: main_4a_def Let_def)

lemma main_4a_Some:
  assumes "isValidOrgnr (orgnummer r)"
  shows "\<exists>t. orgnummer r = Some t \<and>
     main_4a env r s = (case brregLookup env (trim t) s of
         Inl err \<Rightarrow> Inl err
       | Inr s1 \<Rightarrow>
          (let formatted = (case (case (case brregCache s1 (trim t) of None \<Rightarrow> None | Some v \<Rightarrow> v) of
                                     None \<Rightarrow> None | Some en \<Rightarrow> pickBrregAdresse en) of
                               None \<Rightarrow> None | Some a \<Rightarrow> formatBrregAdresse a)
           in case formatted of
                None \<Rightarrow> Inr ((Some (trim t),
                     (if buildMatAdresseFallback r \<noteq> [] then Some (buildMatAdresseFallback r) else None), MAT), s1)
              | Some f \<Rightarrow>
                  if f \<noteq> [] then Inr ((Some (trim t), Some f, BRREG), s1\<lparr>brregHits := brregHits s1 + 1\<rparr>)
                  else Inr ((Some (trim t),
                     (if buildMatAdresseFallback r \<noteq> [] then Some (buildMatAdresseFallback r) else None), MAT), s1)))"
proof -
  from assms obtain t where t: "orgnummer r = Some t"
    by (auto simp: isValidOrgnr_def split: option.splits)
  show ?thesis
    using assms t
    by (auto simp: main_4a_def Let_def split: sum.splits option.splits)
qed

lemma main_4a_frame:
  assumes "main_4a env r s = Inr ((orgnr, best, kilde), s')"
  shows "geocodeCache s' = geocodeCache s \<and> features s' = features s
     \<and> geocodeAttempts s' = geocodeAttempts s \<and> geocodeHits s' = geocodeHits s
     \<and> (\<forall>k\<in>dom (brregCache s). brregCache s' k = brregCache s k)
     \<and> (\<exists>new. trace s' = trace s @ new
            \<and> (\<forall>k\<in>dom (brregCache s). Fetch (BRREG_UNDERENHET k) \<notin> set new \<and> Fetch (BRREG_ENHET k) \<notin> set new)
            \<and> (\<forall>q. Fetch (KARTVERKET_SOK q) \<notin> set new))"
proof (cases "isValidOrgnr (orgnummer r)")
  case False
  then show ?thesis using assms by (auto simp: main_4a_None)
next
  case True
  from main_4a_Some[OF True, of env s] obtain t where t: "orgnummer r = Some t"
    and eq: "main_4a env r s = (case brregLookup env (trim t) s of
         Inl err \<Rightarrow> Inl err
       | Inr s1 \<Rightarrow>
          (let formatted = (case (case (case brregCache s1 (trim t) of None \<Rightarrow> None | Some v \<Rightarrow> v) of
                                     None \<Rightarrow> None | Some en \<Rightarrow> pickBrregAdresse en) of
                               None \<Rightarrow> None | Some a \<Rightarrow> formatBrregAdresse a)
           in case formatted of
                None \<Rightarrow> Inr ((Some (trim t),
                     (if buildMatAdresseFallback r \<noteq> [] then Some (buildMatAdresseFallback r) else None), MAT), s1)
              | Some f \<Rightarrow>
                  if f \<noteq> [] then Inr ((Some (trim t), Some f, BRREG), s1\<lparr>brregHits := brregHits s1 + 1\<rparr>)
                  else Inr ((Some (trim t),
                     (if buildMatAdresseFallback r \<noteq> [] then Some (buildMatAdresseFallback r) else None), MAT), s1)))"
    by blast
  from assms eq obtain s1 where l: "brregLookup env (trim t) s = Inr s1"
    and s': "s' = s1 \<or> s' = s1\<lparr>brregHits := brregHits s1 + 1\<rparr>"
    by (auto simp: Let_def split: sum.splits option.splits if_splits)
  from brregLookup_trace[OF l] obtain new where new: "trace s1 = trace s @ new"
    "set new \<subseteq> {Fetch (BRREG_UNDERENHET (trim t)), Fetch (BRREG_ENHET (trim t)), Sleep (BRREG_DELAY_MS env)}"
    "trim t \<in> dom (brregCache s) \<longrightarrow> new = []"
    by blast
  have ev: "\<forall>k\<in>dom (brregCache s). Fetch (BRREG_UNDERENHET k) \<notin> set new \<and> Fetch (BRREG_ENHET k) \<notin> set new"
  proof (cases "trim t \<in> dom (brregCache s)")
    case True
    then show ?thesis using new(3) by simp
  next
    case False
    then show ?thesis using new(2) by auto
  qed
  have kv: "\<forall>q. Fetch (KARTVERKET_SOK q) \<notin> set new" using new(2) by auto
  have tr: "trace s' = trace s @ new" using s' new(1) by auto
  have c: "\<forall>k\<in>dom (brregCache s). brregCache s' k = brregCache s k"
  proof
    fix k
    assume "k \<in> dom (brregCache s)"
    then have "brregCache s1 k = brregCache s k" by (rule brregLookup_keeps[OF l])
    then show "brregCache s' k = brregCache s k" using s' by auto
  qed
  have f: "geocodeCache s' = geocodeCache s" "features s' = features s"
    "geocodeAttempts s' = geocodeAttempts s" "geocodeHits s' = geocodeHits s"
    using brregLookup_fields[OF l] s' by auto
  from tr ev kv have "\<exists>new. trace s' = trace s @ new
            \<and> (\<forall>k\<in>dom (brregCache s). Fetch (BRREG_UNDERENHET k) \<notin> set new \<and> Fetch (BRREG_ENHET k) \<notin> set new)
            \<and> (\<forall>q. Fetch (KARTVERKET_SOK q) \<notin> set new)"
    by blast
  with f c show ?thesis by blast
qed

lemma geocodeKartverket_trace:
  "geocodeKartverket env q tr = Inr (g, tr') \<Longrightarrow> tr' = tr @ [Fetch (KARTVERKET_SOK q)]"
  by (auto simp: geocodeKartverket_def split: response.splits if_splits option.splits sum.splits)

lemma readCache_None: "readCache c a = None \<longleftrightarrow> c a = None \<and> a \<notin> set objectPrototype"
  by (simp add: readCache_def split: option.splits)

lemma readCache_Point: "readCache c a = Some (Point g) \<longleftrightarrow> c a = Some g"
  by (simp add: readCache_def split: option.splits)

lemma main_4b_found: "readCache (geocodeCache s) a = Some v \<Longrightarrow> main_4b env a s = Inr (Some v, s)"
  by (simp add: main_4b_def)

lemma main_4b_hit: "geocodeCache s a = Some g \<Longrightarrow> main_4b env a s = Inr (Some (Point g), s)"
  by (simp add: main_4b_found readCache_Point)

lemma main_4b_inherited:
  "geocodeCache s a = None \<Longrightarrow> a \<in> set objectPrototype \<Longrightarrow> main_4b env a s = Inr (Some (Inherited a), s)"
  by (simp add: main_4b_found readCache_def)

lemma main_4b_miss:
  assumes "readCache (geocodeCache s) a = None" "main_4b env a s = Inr (v, s')"
  obtains geo where "v = map_option Point geo"
    and "geocodeKartverket env (normalizeQuery a) (trace s)
           = Inr (geo, trace s @ [Fetch (KARTVERKET_SOK (normalizeQuery a))])"
    and "trace s' = trace s @ [Fetch (KARTVERKET_SOK (normalizeQuery a)), Sleep (GEOCODE_DELAY_MS env)]"
    and "geocodeCache s' = (case geo of None \<Rightarrow> geocodeCache s | Some g \<Rightarrow> (geocodeCache s)(a \<mapsto> g))"
    and "geocodeAttempts s' = geocodeAttempts s + 1"
    and "geocodeHits s' = (case geo of None \<Rightarrow> geocodeHits s | Some g \<Rightarrow> geocodeHits s + 1)"
    and "brregCache s' = brregCache s" and "features s' = features s"
    and "brregLookups s' = brregLookups s" and "brregHits s' = brregHits s"
proof -
  from assms obtain geo tr where k: "geocodeKartverket env (normalizeQuery a) (trace s) = Inr (geo, tr)"
    and v: "v = map_option Point geo"
    by (auto simp: main_4b_def Let_def split: sum.splits)
  have tr: "tr = trace s @ [Fetch (KARTVERKET_SOK (normalizeQuery a))]"
    using k by (rule geocodeKartverket_trace)
  have s': "s' = (case geo of
        None \<Rightarrow> s\<lparr>geocodeAttempts := geocodeAttempts s + 1, trace := tr @ [Sleep (GEOCODE_DELAY_MS env)]\<rparr>
      | Some g \<Rightarrow> s\<lparr>geocodeAttempts := geocodeAttempts s + 1,
                     geocodeCache := (geocodeCache s)(a \<mapsto> g), geocodeHits := geocodeHits s + 1,
                     trace := tr @ [Sleep (GEOCODE_DELAY_MS env)]\<rparr>)"
    using assms k by (auto simp: main_4b_def Let_def split: option.splits)
  show ?thesis
  proof (rule that[of geo])
    show "v = map_option Point geo" by (rule v)
    show "geocodeKartverket env (normalizeQuery a) (trace s)
           = Inr (geo, trace s @ [Fetch (KARTVERKET_SOK (normalizeQuery a))])"
      using k tr by simp
    show "trace s' = trace s @ [Fetch (KARTVERKET_SOK (normalizeQuery a)), Sleep (GEOCODE_DELAY_MS env)]"
      and "geocodeCache s' = (case geo of None \<Rightarrow> geocodeCache s | Some g \<Rightarrow> (geocodeCache s)(a \<mapsto> g))"
      and "geocodeAttempts s' = geocodeAttempts s + 1"
      and "geocodeHits s' = (case geo of None \<Rightarrow> geocodeHits s | Some g \<Rightarrow> geocodeHits s + 1)"
      and "brregCache s' = brregCache s" and "features s' = features s"
      and "brregLookups s' = brregLookups s" and "brregHits s' = brregHits s"
      by (simp_all add: s' tr split: option.splits)
  qed
qed

lemma main_4b_frame:
  assumes "main_4b env a s = Inr (v, s')"
  shows "brregCache s' = brregCache s \<and> features s' = features s
    \<and> (\<forall>k g0. geocodeCache s k = Some g0 \<longrightarrow> geocodeCache s' k = Some g0)
    \<and> (\<exists>new. trace s' = trace s @ new
        \<and> (\<forall>k. Fetch (BRREG_UNDERENHET k) \<notin> set new \<and> Fetch (BRREG_ENHET k) \<notin> set new))
    \<and> (v = Some (Point g) \<longrightarrow> geocodeCache s' a = Some g)"
proof (cases "readCache (geocodeCache s) a")
  case None
  then have own: "geocodeCache s a = None" by (simp add: readCache_None)
  from None assms obtain geo where m: "v = map_option Point geo"
    "trace s' = trace s @ [Fetch (KARTVERKET_SOK (normalizeQuery a)), Sleep (GEOCODE_DELAY_MS env)]"
    "geocodeCache s' = (case geo of None \<Rightarrow> geocodeCache s | Some g \<Rightarrow> (geocodeCache s)(a \<mapsto> g))"
    "brregCache s' = brregCache s" "features s' = features s"
    by (rule main_4b_miss)
  have 3: "\<forall>k g0. geocodeCache s k = Some g0 \<longrightarrow> geocodeCache s' k = Some g0"
    using own by (cases geo) (auto simp: m(3))
  have 4: "\<exists>new. trace s' = trace s @ new
        \<and> (\<forall>k. Fetch (BRREG_UNDERENHET k) \<notin> set new \<and> Fetch (BRREG_ENHET k) \<notin> set new)"
    using m(2) by (intro exI[of _ "[Fetch (KARTVERKET_SOK (normalizeQuery a)), Sleep (GEOCODE_DELAY_MS env)]"]) simp
  have 5: "v = Some (Point g) \<longrightarrow> geocodeCache s' a = Some g"
    by (cases geo) (simp_all add: m(1,3))
  from m(4,5) 3 4 5 show ?thesis by simp
next
  case (Some v0)
  then have e: "s' = s" "v = Some v0" using assms by (simp_all add: main_4b_def)
  have 4: "\<exists>new. trace s' = trace s @ new
        \<and> (\<forall>k. Fetch (BRREG_UNDERENHET k) \<notin> set new \<and> Fetch (BRREG_ENHET k) \<notin> set new)"
    using e by (intro exI[of _ "[]"]) simp
  have 5: "v = Some (Point g) \<longrightarrow> geocodeCache s' a = Some g"
    using e Some by (auto simp: readCache_Point)
  from e 4 5 show ?thesis by simp
qed

text \<open>What one turn of the loop leaves alone.\<close>

lemma main_body_cases:
  assumes "main_body env r s = Inr s'"
  obtains (no_address) orgnr kilde where "main_4a env r s = Inr ((orgnr, None, kilde), s')"
  | (no_point) orgnr a kilde s1 where "main_4a env r s = Inr ((orgnr, Some a, kilde), s1)"
      "main_4b env a s1 = Inr (None, s')"
  | (feature) orgnr a kilde s1 g s2 where "main_4a env r s = Inr ((orgnr, Some a, kilde), s1)"
      "main_4b env a s1 = Inr (Some g, s2)"
      "s' = s2\<lparr>features := features s2 @ [makeFeature r orgnr a kilde g]\<rparr>"
proof (cases "main_4a env r s")
  case (Inl err)
  then show ?thesis using assms by (simp add: main_body_def)
next
  case (Inr p)
  obtain orgnr best kilde s1 where p: "p = ((orgnr, best, kilde), s1)" by (cases p) auto
  show ?thesis
  proof (cases best)
    case None
    then have "s' = s1" using assms Inr p by (simp add: main_body_def)
    then show ?thesis using no_address Inr p None by simp
  next
    case (Some a)
    show ?thesis
    proof (cases "main_4b env a s1")
      case (Inl err)
      then show ?thesis using assms \<open>main_4a env r s = Inr p\<close> p Some by (simp add: main_body_def)
    next
      case (Inr q)
      obtain geo s2 where q: "q = (geo, s2)" by (cases q)
      show ?thesis
      proof (cases geo)
        case None
        then have "s' = s2"
          using assms \<open>main_4a env r s = Inr p\<close> p Some Inr q by (simp add: main_body_def)
        then show ?thesis using no_point \<open>main_4a env r s = Inr p\<close> p Some Inr q None by simp
      next
        case (Some g)
        then have "s' = s2\<lparr>features := features s2 @ [makeFeature r orgnr a kilde g]\<rparr>"
          using assms \<open>main_4a env r s = Inr p\<close> p \<open>best = Some a\<close> Inr q by (simp add: main_body_def)
        then show ?thesis
          using feature \<open>main_4a env r s = Inr p\<close> p \<open>best = Some a\<close> Inr q Some by simp
      qed
    qed
  qed
qed

lemma append_frame:
  assumes "trace s1 = trace s @ new1" "trace s2 = trace s1 @ new2"
    "\<forall>k\<in>D. Fetch (BRREG_UNDERENHET k) \<notin> set new1 \<and> Fetch (BRREG_ENHET k) \<notin> set new1"
    "\<forall>k\<in>D. Fetch (BRREG_UNDERENHET k) \<notin> set new2 \<and> Fetch (BRREG_ENHET k) \<notin> set new2"
  shows "\<exists>new. trace s2 = trace s @ new
        \<and> (\<forall>k\<in>D. Fetch (BRREG_UNDERENHET k) \<notin> set new \<and> Fetch (BRREG_ENHET k) \<notin> set new)"
proof -
  have "trace s2 = trace s @ (new1 @ new2)" using assms(1,2) by simp
  moreover have "\<forall>k\<in>D. Fetch (BRREG_UNDERENHET k) \<notin> set (new1 @ new2)
       \<and> Fetch (BRREG_ENHET k) \<notin> set (new1 @ new2)"
    using assms(3,4) by simp
  ultimately show ?thesis by blast
qed

lemma main_4a_4b_frame:
  assumes a: "main_4a env r s = Inr ((orgnr, best, kilde), s1)"
    and b: "main_4b env adr s1 = Inr (geo, s2)"
  shows "(\<forall>k\<in>dom (brregCache s). brregCache s2 k = brregCache s k)
    \<and> (\<forall>k g0. geocodeCache s k = Some g0 \<longrightarrow> geocodeCache s2 k = Some g0)
    \<and> (\<exists>new. trace s2 = trace s @ new
        \<and> (\<forall>k\<in>dom (brregCache s). Fetch (BRREG_UNDERENHET k) \<notin> set new \<and> Fetch (BRREG_ENHET k) \<notin> set new))
    \<and> features s2 = features s"
proof -
  note fa = main_4a_frame[OF a]
  note fb = main_4b_frame[OF b, of undefined]
  have 1: "\<forall>k\<in>dom (brregCache s). brregCache s2 k = brregCache s k"
    using fa fb by simp
  have 2: "\<forall>k g0. geocodeCache s k = Some g0 \<longrightarrow> geocodeCache s2 k = Some g0"
    using fa fb by simp
  have 4: "features s2 = features s" using fa fb by simp
  from fa obtain new1 where n1: "trace s1 = trace s @ new1"
    "\<forall>k\<in>dom (brregCache s). Fetch (BRREG_UNDERENHET k) \<notin> set new1 \<and> Fetch (BRREG_ENHET k) \<notin> set new1"
    by blast
  from fb obtain new2 where n2: "trace s2 = trace s1 @ new2"
    "\<forall>k. Fetch (BRREG_UNDERENHET k) \<notin> set new2 \<and> Fetch (BRREG_ENHET k) \<notin> set new2"
    by blast
  from n2(2) have n2': "\<forall>k\<in>dom (brregCache s). Fetch (BRREG_UNDERENHET k) \<notin> set new2 \<and> Fetch (BRREG_ENHET k) \<notin> set new2"
    by blast
  have 3: "\<exists>new. trace s2 = trace s @ new
        \<and> (\<forall>k\<in>dom (brregCache s). Fetch (BRREG_UNDERENHET k) \<notin> set new \<and> Fetch (BRREG_ENHET k) \<notin> set new)"
    using n1(1) n2(1) n1(2) n2' by (rule append_frame)
  from 1 2 3 4 show ?thesis by simp
qed

lemma makeFeature_finite: "isFinite (p_karakter (properties (makeFeature r orgnr a kilde g)))"
  by (simp add: makeFeature_def Let_def)

lemma main_body_frame:
  assumes "main_body env r s = Inr s'"
  shows "(\<forall>k\<in>dom (brregCache s). brregCache s' k = brregCache s k)
    \<and> (\<forall>k g0. geocodeCache s k = Some g0 \<longrightarrow> geocodeCache s' k = Some g0)
    \<and> (\<exists>new. trace s' = trace s @ new
        \<and> (\<forall>k\<in>dom (brregCache s). Fetch (BRREG_UNDERENHET k) \<notin> set new \<and> Fetch (BRREG_ENHET k) \<notin> set new))
    \<and> (\<exists>fs. features s' = features s @ fs \<and> (\<forall>f\<in>set fs. isFinite (p_karakter (properties f))))"
  using assms
proof (cases rule: main_body_cases)
  case (no_address orgnr kilde)
  note f = main_4a_frame[OF no_address]
  have "\<exists>fs. features s' = features s @ fs \<and> (\<forall>f\<in>set fs. isFinite (p_karakter (properties f)))"
    using f by (intro exI[of _ "[]"]) simp
  moreover have "\<exists>new. trace s' = trace s @ new
        \<and> (\<forall>k\<in>dom (brregCache s). Fetch (BRREG_UNDERENHET k) \<notin> set new \<and> Fetch (BRREG_ENHET k) \<notin> set new)"
    using f by blast
  ultimately show ?thesis using f by simp
next
  case (no_point orgnr a kilde s1)
  note f = main_4a_4b_frame[OF no_point]
  have "\<exists>fs. features s' = features s @ fs \<and> (\<forall>f\<in>set fs. isFinite (p_karakter (properties f)))"
    using f by (intro exI[of _ "[]"]) simp
  then show ?thesis using f by simp
next
  case (feature orgnr a kilde s1 g s2)
  note f = main_4a_4b_frame[OF feature(1,2)]
  have e: "brregCache s' = brregCache s2" "geocodeCache s' = geocodeCache s2" "trace s' = trace s2"
    "features s' = features s2 @ [makeFeature r orgnr a kilde g]"
    by (simp_all add: feature(3))
  have "\<exists>fs. features s' = features s @ fs \<and> (\<forall>f\<in>set fs. isFinite (p_karakter (properties f)))"
    using f e(4) by (intro exI[of _ "[makeFeature r orgnr a kilde g]"]) (simp add: makeFeature_finite)
  then show ?thesis using f unfolding e(1,2,3) by simp
qed

lemma main_loop_frame:
  assumes "main_loop env rows s = Inr s'"
  shows "(\<forall>k\<in>dom (brregCache s). brregCache s' k = brregCache s k)
     \<and> (\<forall>k g0. geocodeCache s k = Some g0 \<longrightarrow> geocodeCache s' k = Some g0)
     \<and> (\<exists>new. trace s' = trace s @ new
        \<and> (\<forall>k\<in>dom (brregCache s). Fetch (BRREG_UNDERENHET k) \<notin> set new \<and> Fetch (BRREG_ENHET k) \<notin> set new))
     \<and> (\<exists>fs. features s' = features s @ fs \<and> (\<forall>f\<in>set fs. isFinite (p_karakter (properties f))))"
  using assms
proof (induction rows arbitrary: s)
  case Nil
  have "\<exists>new. trace s = trace s @ new
        \<and> (\<forall>k\<in>dom (brregCache s). Fetch (BRREG_UNDERENHET k) \<notin> set new \<and> Fetch (BRREG_ENHET k) \<notin> set new)"
    by (intro exI[of _ "[]"]) simp
  moreover have "\<exists>fs. features s = features s @ fs \<and> (\<forall>f\<in>set fs. isFinite (p_karakter (properties f)))"
    by (intro exI[of _ "[]"]) simp
  ultimately show ?case using Nil by simp
next
  case (Cons r rows)
  from Cons.prems obtain s1 where b: "main_body env r s = Inr s1" and l: "main_loop env rows s1 = Inr s'"
    by (auto split: sum.splits)
  note fb = main_body_frame[OF b]
  note fl = Cons.IH[OF l]
  have dom: "dom (brregCache s) \<subseteq> dom (brregCache s1)"
    using fb by (auto simp: domIff)
  have 1: "\<forall>k\<in>dom (brregCache s). brregCache s' k = brregCache s k"
  proof
    fix k assume k: "k \<in> dom (brregCache s)"
    then have "k \<in> dom (brregCache s1)" using dom by blast
    then have "brregCache s' k = brregCache s1 k" using fl by blast
    then show "brregCache s' k = brregCache s k" using fb k by simp
  qed
  have 2: "\<forall>k g0. geocodeCache s k = Some g0 \<longrightarrow> geocodeCache s' k = Some g0"
  proof (intro allI impI)
    fix k g0 assume "geocodeCache s k = Some g0"
    then have "geocodeCache s1 k = Some g0" using fb by simp
    then show "geocodeCache s' k = Some g0" using fl by simp
  qed
  from fb obtain new1 where n1: "trace s1 = trace s @ new1"
    "\<forall>k\<in>dom (brregCache s). Fetch (BRREG_UNDERENHET k) \<notin> set new1 \<and> Fetch (BRREG_ENHET k) \<notin> set new1"
    by blast
  from fl obtain new2 where n2: "trace s' = trace s1 @ new2"
    "\<forall>k\<in>dom (brregCache s1). Fetch (BRREG_UNDERENHET k) \<notin> set new2 \<and> Fetch (BRREG_ENHET k) \<notin> set new2"
    by blast
  from n2(2) dom have n2': "\<forall>k\<in>dom (brregCache s). Fetch (BRREG_UNDERENHET k) \<notin> set new2 \<and> Fetch (BRREG_ENHET k) \<notin> set new2"
    by blast
  have 3: "\<exists>new. trace s' = trace s @ new
        \<and> (\<forall>k\<in>dom (brregCache s). Fetch (BRREG_UNDERENHET k) \<notin> set new \<and> Fetch (BRREG_ENHET k) \<notin> set new)"
    using n1(1) n2(1) n1(2) n2' by (rule append_frame)
  from fl obtain fs2 where f2: "features s' = features s1 @ fs2"
    "\<forall>f\<in>set fs2. isFinite (p_karakter (properties f))"
    by blast
  from fb obtain fs1 where f1: "features s1 = features s @ fs1"
    "\<forall>f\<in>set fs1. isFinite (p_karakter (properties f))"
    by blast
  have 4: "\<exists>fs. features s' = features s @ fs \<and> (\<forall>f\<in>set fs. isFinite (p_karakter (properties f)))"
    using f1 f2 by (intro exI[of _ "fs1 @ fs2"]) auto
  from 1 2 3 4 show ?case by simp
qed

lemma extract_no_object: "\<not> isObject payload \<Longrightarrow> extractLngLatFromKartverket payload = Inr None"
  by (simp add: extractLngLatFromKartverket_def)

lemma extract_cases:
  "extractLngLatFromKartverket payload =
     (if firstResult payload = Some JNull \<or> firstResult payload = Some JUndefined then Inl TypeError
      else if wellFormedPoint payload
        then (case firstResult payload of
                Some first \<Rightarrow> Inr (Some \<lparr>lon = (case getPropOpt (getPropOpt first ''representasjonspunkt'') ''lon'' of JNum n \<Rightarrow> n | _ \<Rightarrow> NaN),
                                         lat = (case getPropOpt (getPropOpt first ''representasjonspunkt'') ''lat'' of JNum n \<Rightarrow> n | _ \<Rightarrow> NaN)\<rparr>)
              | None \<Rightarrow> Inr None)
      else Inr None)"
proof (cases payload)
  case (JObj kvs)
  show ?thesis
  proof (cases "map_of kvs ''adresser''")
    case None
    then show ?thesis using JObj
      by (simp add: extractLngLatFromKartverket_def firstResult_def wellFormedPoint_def)
  next
    case (Some ad)
    show ?thesis
    proof (cases ad)
      case (JArr xs)
      show ?thesis
      proof (cases xs)
        case Nil
        then show ?thesis using JObj Some JArr
          by (simp add: extractLngLatFromKartverket_def firstResult_def wellFormedPoint_def)
      next
        case (Cons first rest)
        have fr: "firstResult payload = Some first"
          using JObj Some JArr Cons by (simp add: firstResult_def)
        have ex: "extractLngLatFromKartverket payload =
           (case getProp first ''representasjonspunkt'' of
                    Inl err \<Rightarrow> Inl err
                  | Inr rp \<Rightarrow>
                      (case (getPropOpt rp ''lat'', getPropOpt rp ''lon'') of
                         (JNum la, JNum lo) \<Rightarrow> Inr (Some \<lparr>lon = lo, lat = la\<rparr>)
                       | _ \<Rightarrow> Inr None))"
          using JObj Some JArr Cons by (simp add: extractLngLatFromKartverket_def)
        show ?thesis
        proof (cases first)
          case (JObj rkvs)
          show ?thesis
          proof (cases "map_of rkvs ''representasjonspunkt''")
            case None
            then show ?thesis using JObj fr ex by (simp add: wellFormedPoint_def)
          next
            case (Some rp)
            show ?thesis
            proof (cases rp)
              case (JObj pkvs)
              then show ?thesis using \<open>first = JObj rkvs\<close> Some fr ex
                by (auto simp: wellFormedPoint_def split: option.splits jsval.splits)
            qed (use \<open>first = JObj rkvs\<close> Some fr ex in \<open>simp_all add: wellFormedPoint_def\<close>)
          qed
        qed (use fr ex in \<open>simp_all add: wellFormedPoint_def\<close>)
      qed
    qed (use JObj Some in \<open>simp_all add: extractLngLatFromKartverket_def firstResult_def wellFormedPoint_def\<close>)
  qed
qed (simp_all add: extractLngLatFromKartverket_def firstResult_def wellFormedPoint_def)

lemma extract_None:
  assumes "\<not> wellFormedPoint payload" "firstResult payload \<noteq> Some JNull" "firstResult payload \<noteq> Some JUndefined"
  shows "extractLngLatFromKartverket payload = Inr None"
  using assms by (simp add: extract_cases)

lemma geocodeKartverket_null:
  assumes "fetch_kartverket env (length tr) (KARTVERKET_SOK q) = Response st b"
    and "\<not> res_ok st \<or> (\<exists>payload. b = Some payload \<and> \<not> wellFormedPoint payload
            \<and> firstResult payload \<noteq> Some JNull \<and> firstResult payload \<noteq> Some JUndefined)"
  shows "geocodeKartverket env q tr = Inr (None, tr @ [Fetch (KARTVERKET_SOK q)])"
  using assms by (auto simp: geocodeKartverket_def extract_None)

lemma geocodeKartverket_not_json:
  assumes "fetch_kartverket env (length tr) (KARTVERKET_SOK q) = Response st None" "res_ok st"
  shows "geocodeKartverket env q tr = Inl SyntaxError"
  using assms by (simp add: geocodeKartverket_def)

lemma main_4b_null:
  assumes "readCache (geocodeCache s) a = None"
    and "geocodeKartverket env (normalizeQuery a) (trace s) = Inr (None, tr)"
  shows "main_4b env a s = Inr (None, s\<lparr>geocodeAttempts := geocodeAttempts s + 1,
      trace := tr @ [Sleep (GEOCODE_DELAY_MS env)]\<rparr>)"
  using assms by (simp add: main_4b_def Let_def)

lemma main_4b_point:
  assumes "readCache (geocodeCache s) a = None"
    and "geocodeKartverket env (normalizeQuery a) (trace s) = Inr (Some g, tr)"
  shows "main_4b env a s = Inr (Some (Point g), s\<lparr>geocodeAttempts := geocodeAttempts s + 1,
      geocodeCache := (geocodeCache s)(a \<mapsto> g), geocodeHits := geocodeHits s + 1,
      trace := tr @ [Sleep (GEOCODE_DELAY_MS env)]\<rparr>)"
  using assms by (simp add: main_4b_def Let_def)

lemma main_4b_error:
  assumes "readCache (geocodeCache s) a = None"
    and "geocodeKartverket env (normalizeQuery a) (trace s) = Inl err"
  shows "main_4b env a s = Inl err"
  using assms by (simp add: main_4b_def)

lemma storgata_not_inherited: "''Storgata 1, 0150, Oslo'' \<notin> set objectPrototype"
  by (simp add: objectPrototype_def)

lemma constructor_inherited: "''constructor'' \<in> set objectPrototype"
  by (simp add: objectPrototype_def)

lemma main_body_no_address:
  "main_4a env r s = Inr ((orgnr, None, kilde), s1) \<Longrightarrow> main_body env r s = Inr s1"
  by (simp add: main_body_def)

lemma main_body_no_point:
  "main_4a env r s = Inr ((orgnr, Some a, kilde), s1) \<Longrightarrow> main_4b env a s1 = Inr (None, s2)
     \<Longrightarrow> main_body env r s = Inr s2"
  by (simp add: main_body_def)

lemma main_body_feature:
  "main_4a env r s = Inr ((orgnr, Some a, kilde), s1) \<Longrightarrow> main_4b env a s1 = Inr (Some g, s2)
     \<Longrightarrow> main_body env r s = Inr (s2\<lparr>features := features s2 @ [makeFeature r orgnr a kilde g]\<rparr>)"
  by (simp add: main_body_def)

lemma main_body_error:
  "main_4a env r s = Inr ((orgnr, Some a, kilde), s1) \<Longrightarrow> main_4b env a s1 = Inl err
     \<Longrightarrow> main_body env r s = Inl err"
  by (simp add: main_body_def)

text \<open>The texts of the examples.\<close>

lemma storgata_address: "buildMatAdresseFallback (storgataRow k) = ''Storgata 1, 0150, Oslo''"
  by (simp add: buildMatAdresseFallback_def storgataRow_def exampleRow_def filterBoolean_def
      trim_def isWhiteSpace_def)

lemma storgata_query: "normalizeQuery ''Storgata 1, 0150, Oslo'' = ''Storgata 1 0150 Oslo''"
  by (simp add: normalizeQuery_def trim_def isWhiteSpace_def)

lemma storgata_4a:
  "main_4a env (storgataRow k) s = Inr ((None, Some ''Storgata 1, 0150, Oslo'', MAT), s)"
proof -
  have "\<not> isValidOrgnr (orgnummer (storgataRow k))"
    by (simp add: storgataRow_def exampleRow_def isValidOrgnr_def)
  then show ?thesis by (simp add: main_4a_None storgata_address)
qed

lemma nabo_address: "buildMatAdresseFallback (naboRow k) = ''Storgata 1, 0150, Oslo''"
  by (simp add: buildMatAdresseFallback_def naboRow_def exampleRow_def filterBoolean_def
      trim_def isWhiteSpace_def)

lemma nabo_4a:
  "main_4a env (naboRow k) s = Inr ((None, Some ''Storgata 1, 0150, Oslo'', MAT), s)"
proof -
  have "\<not> isValidOrgnr (orgnummer (naboRow k))"
    by (simp add: naboRow_def exampleRow_def isValidOrgnr_def)
  then show ?thesis by (simp add: main_4a_None nabo_address)
qed

lemma constructor_address: "buildMatAdresseFallback (constructorRow k) = ''constructor''"
  by (simp add: buildMatAdresseFallback_def constructorRow_def exampleRow_def filterBoolean_def
      trim_def isWhiteSpace_def)

lemma constructor_4a:
  "main_4a env (constructorRow k) s = Inr ((None, Some ''constructor'', MAT), s)"
proof -
  have "\<not> isValidOrgnr (orgnummer (constructorRow k))"
    by (simp add: constructorRow_def exampleRow_def isValidOrgnr_def)
  then show ?thesis by (simp add: main_4a_None constructor_address)
qed

lemma example_rows_ok:
  "rowOk (storgataRow k)" "rowOk (naboRow k)" "k \<noteq> [] \<Longrightarrow> rowOk (constructorRow k)"
  "tilsynsobjektid (storgataRow k) = ''1''" "tilsynsobjektid (naboRow k) = ''3''"
  "tilsynsobjektid (constructorRow k) = k"
  by (simp_all add: rowOk_def storgataRow_def naboRow_def constructorRow_def exampleRow_def)

lemma latestRows_two:
  assumes "rowOk r1" "rowOk r2" "tilsynsobjektid r1 \<noteq> tilsynsobjektid r2"
  shows "latestRows [r1, r2] = [r1, r2]"
  using assms by (simp add: latestRows_def latestMap_def Let_def)

lemma main_4b_Some_cases:
  assumes "main_4b env a s = Inr (Some v, s')"
  shows "(\<exists>g. v = Point g) \<or> (v = Inherited a \<and> readCache (geocodeCache s) a = Some (Inherited a) \<and> s' = s)"
proof (cases "readCache (geocodeCache s) a")
  case None
  from None assms obtain geo where "Some v = map_option Point geo" by (rule main_4b_miss)
  then show ?thesis by (cases geo) auto
next
  case (Some v0)
  then have e: "s' = s" "v = v0" using assms by (simp_all add: main_4b_def)
  show ?thesis
  proof (cases v0)
    case (Point g)
    then show ?thesis using e by simp
  next
    case (Inherited n)
    then have "n = a" using Some by (auto simp: readCache_def split: option.splits if_splits)
    then show ?thesis using e Some Inherited by simp
  qed
qed

section \<open>Registry resolution\<close>

text \<open>
  Claim C5. For every organisation number, registry resolution asks the sub-entity endpoint
  first. When that lookup gives an entity with a populated organisation-number field, the
  entity is the result and the main-entity endpoint is not asked, whatever it would have
  answered. Only otherwise is the main-entity endpoint asked, and its entity is the result
  if its organisation-number field is populated; if neither lookup gives one, the result is
  null.
\<close>

theorem fetchBrregEntity_underenhet_first:
  "(fetchJsonOrNull env (BRREG_UNDERENHET nr) tr = Inr (u, tr1) \<and> hasOrgnr u \<longrightarrow>
       fetchBrregEntity env nr tr = Inr (u, tr1) \<and> tr1 = tr @ [Fetch (BRREG_UNDERENHET nr)])
   \<and> (fetchJsonOrNull env (BRREG_UNDERENHET nr) tr = Inr (u, tr1) \<and> \<not> hasOrgnr u
        \<and> fetchJsonOrNull env (BRREG_ENHET nr) tr1 = Inr (e, tr2) \<longrightarrow>
       fetchBrregEntity env nr tr = Inr (if hasOrgnr e then e else None, tr2)
       \<and> tr2 = tr @ [Fetch (BRREG_UNDERENHET nr), Fetch (BRREG_ENHET nr)])
   \<and> (fetchBrregEntity env nr tr = Inr (v, tr') \<longrightarrow>
        (\<exists>rest. tr' = tr @ Fetch (BRREG_UNDERENHET nr) # rest)
        \<and> (Fetch (BRREG_ENHET nr) \<in> set (drop (length tr) tr')
             \<longleftrightarrow> \<not> (\<exists>u'. fetchJsonOrNull env (BRREG_UNDERENHET nr) tr
                           = Inr (u', tr @ [Fetch (BRREG_UNDERENHET nr)]) \<and> hasOrgnr u'))
        \<and> (v = None \<or> hasOrgnr v))"
proof (intro conjI impI)
  assume a: "fetchJsonOrNull env (BRREG_UNDERENHET nr) tr = Inr (u, tr1) \<and> hasOrgnr u"
  then show "fetchBrregEntity env nr tr = Inr (u, tr1)" by (simp add: fetchBrregEntity_def)
  from a show "tr1 = tr @ [Fetch (BRREG_UNDERENHET nr)]" by (auto dest: fetchJsonOrNull_trace)
next
  assume a: "fetchJsonOrNull env (BRREG_UNDERENHET nr) tr = Inr (u, tr1) \<and> \<not> hasOrgnr u
        \<and> fetchJsonOrNull env (BRREG_ENHET nr) tr1 = Inr (e, tr2)"
  then show "fetchBrregEntity env nr tr = Inr (if hasOrgnr e then e else None, tr2)"
    by (simp add: fetchBrregEntity_def)
  from a have "tr1 = tr @ [Fetch (BRREG_UNDERENHET nr)]" "tr2 = tr1 @ [Fetch (BRREG_ENHET nr)]"
    by (auto dest: fetchJsonOrNull_trace)
  then show "tr2 = tr @ [Fetch (BRREG_UNDERENHET nr), Fetch (BRREG_ENHET nr)]" by simp
next
  assume a: "fetchBrregEntity env nr tr = Inr (v, tr')"
  from fetchBrregEntity_cases[OF a]
  show "\<exists>rest. tr' = tr @ Fetch (BRREG_UNDERENHET nr) # rest" by auto
  from fetchBrregEntity_cases[OF a]
  show "Fetch (BRREG_ENHET nr) \<in> set (drop (length tr) tr')
             \<longleftrightarrow> \<not> (\<exists>u'. fetchJsonOrNull env (BRREG_UNDERENHET nr) tr
                           = Inr (u', tr @ [Fetch (BRREG_UNDERENHET nr)]) \<and> hasOrgnr u')"
    by auto
  from fetchBrregEntity_cases[OF a]
  show "v = None \<or> hasOrgnr v" by (auto split: if_splits)
qed

lemma envBothAnswer_sub:
  "fetchJsonOrNull envBothAnswer (BRREG_UNDERENHET nr) tr
     = Inr (Some (exampleEntity nr ''Storgata 1'' ''0150'' ''Oslo''), tr @ [Fetch (BRREG_UNDERENHET nr)])"
  by (simp add: fetchJsonOrNull_def envBothAnswer_def exampleEnv_def res_ok_def)

theorem fetchBrregEntity_underenhet_first_witness:
  "fetchBrregEntity envBothAnswer ''123456789'' []
     = Inr (Some (exampleEntity ''123456789'' ''Storgata 1'' ''0150'' ''Oslo''), [Fetch (BRREG_UNDERENHET ''123456789'')])
   \<and> fetch_brreg envBothAnswer 1 (BRREG_ENHET ''123456789'')
     = Response 200 (Some (exampleEntity ''123456789'' ''Annen vei 2'' ''5003'' ''Bergen''))"
proof -
  have h: "hasOrgnr (Some (exampleEntity ''123456789'' ''Storgata 1'' ''0150'' ''Oslo''))"
    by (simp add: hasOrgnr_def exampleEntity_def)
  have "fetchBrregEntity envBothAnswer ''123456789'' []
     = Inr (Some (exampleEntity ''123456789'' ''Storgata 1'' ''0150'' ''Oslo''), [Fetch (BRREG_UNDERENHET ''123456789'')])"
    using fetchBrregEntity_underenhet_first[of envBothAnswer "''123456789''" "[]"
        "Some (exampleEntity ''123456789'' ''Storgata 1'' ''0150'' ''Oslo'')"
        "[Fetch (BRREG_UNDERENHET ''123456789'')]"] h envBothAnswer_sub[of "''123456789''" "[]"]
    by simp
  then show ?thesis by (simp add: envBothAnswer_def exampleEnv_def)
qed

lemma main_4a_after_lookup:
  assumes "isValidOrgnr (orgnummer r)" "orgnummer r = Some t" "brregLookup env (trim t) s = Inr s1"
  shows "\<exists>res s'. main_4a env r s = Inr (res, s') \<and> brregCache s' = brregCache s1
     \<and> brregLookups s' = brregLookups s1 \<and> trace s' = trace s1"
proof -
  from main_4a_Some[OF assms(1), of env s] assms(2,3)
  have "main_4a env r s =
          (let formatted = (case (case (case brregCache s1 (trim t) of None \<Rightarrow> None | Some v \<Rightarrow> v) of
                                     None \<Rightarrow> None | Some en \<Rightarrow> pickBrregAdresse en) of
                               None \<Rightarrow> None | Some a \<Rightarrow> formatBrregAdresse a)
           in case formatted of
                None \<Rightarrow> Inr ((Some (trim t),
                     (if buildMatAdresseFallback r \<noteq> [] then Some (buildMatAdresseFallback r) else None), MAT), s1)
              | Some f \<Rightarrow>
                  if f \<noteq> [] then Inr ((Some (trim t), Some f, BRREG), s1\<lparr>brregHits := brregHits s1 + 1\<rparr>)
                  else Inr ((Some (trim t),
                     (if buildMatAdresseFallback r \<noteq> [] then Some (buildMatAdresseFallback r) else None), MAT), s1))"
    by auto
  then show ?thesis by (auto simp: Let_def split: option.splits)
qed

lemma fetchBrregEntity_both_null:
  assumes "fetch_brreg env (length tr) (BRREG_UNDERENHET nr) = Response st1 b1" "st1 = 404 \<or> \<not> res_ok st1"
    and "fetch_brreg env (Suc (length tr)) (BRREG_ENHET nr) = Response st2 b2" "st2 = 404 \<or> \<not> res_ok st2"
  shows "fetchBrregEntity env nr tr = Inr (None, tr @ [Fetch (BRREG_UNDERENHET nr), Fetch (BRREG_ENHET nr)])"
proof -
  have 1: "fetchJsonOrNull env (BRREG_UNDERENHET nr) tr = Inr (None, tr @ [Fetch (BRREG_UNDERENHET nr)])"
    using assms(1,2) by (rule fetchJsonOrNull_null)
  have "fetch_brreg env (length (tr @ [Fetch (BRREG_UNDERENHET nr)])) (BRREG_ENHET nr) = Response st2 b2"
    using assms(3) by simp
  then have 2: "fetchJsonOrNull env (BRREG_ENHET nr) (tr @ [Fetch (BRREG_UNDERENHET nr)])
      = Inr (None, (tr @ [Fetch (BRREG_UNDERENHET nr)]) @ [Fetch (BRREG_ENHET nr)])"
    using assms(4) by (rule fetchJsonOrNull_null)
  show ?thesis by (simp add: fetchBrregEntity_def 1 2 hasOrgnr_def)
qed

text \<open>
  Claim C6. For a row whose organisation number is nine digits after trimming: when the
  number is not a key of the registry cache, one resolution is made and whatever it
  returns, null after 404 or after any other failing status included, is stored under the
  number, followed by one delay; when the number is a key of the cache, even one mapped to
  null, step 4a sends no request and changes no entry, and no later row of the run sends a
  registry request for that number or changes its entry.
\<close>

theorem brregCache_write_through:
  assumes "isValidOrgnr (orgnummer r)" "orgnummer r = Some t"
  shows
    "(trim t \<notin> dom (brregCache s) \<and> fetchBrregEntity env (trim t) (trace s) = Inr (v, tr) \<longrightarrow>
        (\<exists>res s1. main_4a env r s = Inr (res, s1) \<and> brregCache s1 = (brregCache s)(trim t \<mapsto> v)
           \<and> brregLookups s1 = brregLookups s + 1 \<and> trace s1 = tr @ [Sleep (BRREG_DELAY_MS env)]))
     \<and> (trim t \<notin> dom (brregCache s)
          \<and> fetch_brreg env (length (trace s)) (BRREG_UNDERENHET (trim t)) = Response st1 b1
          \<and> (st1 = 404 \<or> \<not> res_ok st1)
          \<and> fetch_brreg env (Suc (length (trace s))) (BRREG_ENHET (trim t)) = Response st2 b2
          \<and> (st2 = 404 \<or> \<not> res_ok st2) \<longrightarrow>
        (\<exists>res s1. main_4a env r s = Inr (res, s1) \<and> brregCache s1 (trim t) = Some None))
     \<and> (trim t \<in> dom (brregCache s) \<longrightarrow>
        (\<exists>res s1. main_4a env r s = Inr (res, s1) \<and> brregCache s1 = brregCache s
           \<and> brregLookups s1 = brregLookups s \<and> trace s1 = trace s))
     \<and> (trim t \<in> dom (brregCache s) \<and> main_loop env rows s = Inr s2 \<longrightarrow>
        brregCache s2 (trim t) = brregCache s (trim t)
        \<and> (\<exists>new. trace s2 = trace s @ new
              \<and> Fetch (BRREG_UNDERENHET (trim t)) \<notin> set new \<and> Fetch (BRREG_ENHET (trim t)) \<notin> set new))"
proof (intro conjI impI)
  assume a: "trim t \<notin> dom (brregCache s) \<and> fetchBrregEntity env (trim t) (trace s) = Inr (v, tr)"
  then have "brregLookup env (trim t) s =
     Inr (s\<lparr>brregLookups := brregLookups s + 1, brregCache := (brregCache s)(trim t \<mapsto> v),
            trace := tr @ [Sleep (BRREG_DELAY_MS env)]\<rparr>)"
    by (simp add: brregLookup_miss)
  from main_4a_after_lookup[OF assms this]
  show "\<exists>res s1. main_4a env r s = Inr (res, s1) \<and> brregCache s1 = (brregCache s)(trim t \<mapsto> v)
           \<and> brregLookups s1 = brregLookups s + 1 \<and> trace s1 = tr @ [Sleep (BRREG_DELAY_MS env)]"
    by simp
next
  assume a: "trim t \<notin> dom (brregCache s)
          \<and> fetch_brreg env (length (trace s)) (BRREG_UNDERENHET (trim t)) = Response st1 b1
          \<and> (st1 = 404 \<or> \<not> res_ok st1)
          \<and> fetch_brreg env (Suc (length (trace s))) (BRREG_ENHET (trim t)) = Response st2 b2
          \<and> (st2 = 404 \<or> \<not> res_ok st2)"
  then have "fetchBrregEntity env (trim t) (trace s)
      = Inr (None, trace s @ [Fetch (BRREG_UNDERENHET (trim t)), Fetch (BRREG_ENHET (trim t))])"
    by (intro fetchBrregEntity_both_null) auto
  with a have "brregLookup env (trim t) s =
     Inr (s\<lparr>brregLookups := brregLookups s + 1, brregCache := (brregCache s)(trim t \<mapsto> None),
            trace := (trace s @ [Fetch (BRREG_UNDERENHET (trim t)), Fetch (BRREG_ENHET (trim t))])
                       @ [Sleep (BRREG_DELAY_MS env)]\<rparr>)"
    by (simp add: brregLookup_miss)
  from main_4a_after_lookup[OF assms this]
  show "\<exists>res s1. main_4a env r s = Inr (res, s1) \<and> brregCache s1 (trim t) = Some None"
    by auto
next
  assume "trim t \<in> dom (brregCache s)"
  then have "brregLookup env (trim t) s = Inr s" by (rule brregLookup_hit)
  from main_4a_after_lookup[OF assms this]
  show "\<exists>res s1. main_4a env r s = Inr (res, s1) \<and> brregCache s1 = brregCache s
           \<and> brregLookups s1 = brregLookups s \<and> trace s1 = trace s"
    by simp
next
  assume a: "trim t \<in> dom (brregCache s) \<and> main_loop env rows s = Inr s2"
  then have l: "main_loop env rows s = Inr s2" and d: "trim t \<in> dom (brregCache s)" by simp_all
  note f = main_loop_frame[OF l]
  from f d show "brregCache s2 (trim t) = brregCache s (trim t)" by blast
  from f obtain new where "trace s2 = trace s @ new"
    "\<forall>k\<in>dom (brregCache s). Fetch (BRREG_UNDERENHET k) \<notin> set new \<and> Fetch (BRREG_ENHET k) \<notin> set new"
    by blast
  with d show "\<exists>new. trace s2 = trace s @ new
              \<and> Fetch (BRREG_UNDERENHET (trim t)) \<notin> set new \<and> Fetch (BRREG_ENHET (trim t)) \<notin> set new"
    by blast
qed

lemma orgnrRow_valid:
  "isValidOrgnr (orgnummer (orgnrRow '' 123456789 ''))" "orgnummer (orgnrRow '' 123456789 '') = Some '' 123456789 ''"
  "trim '' 123456789 '' = ''123456789''"
  by (simp_all add: orgnrRow_def exampleRow_def isValidOrgnr_def trim_def isWhiteSpace_def isDigit_def)

theorem brregCache_write_through_witness:
  "\<exists>res s1. main_4a envAllFail (orgnrRow '' 123456789 '') emptyState = Inr (res, s1)
      \<and> brregCache s1 ''123456789'' = Some None"
proof -
  have d: "''123456789'' \<notin> dom (brregCache emptyState)" by (simp add: emptyState_def)
  have f: "fetch_brreg envAllFail (length (trace emptyState)) (BRREG_UNDERENHET ''123456789'') = Response 500 None"
    "fetch_brreg envAllFail (Suc (length (trace emptyState))) (BRREG_ENHET ''123456789'') = Response 500 None"
    "\<not> res_ok 500"
    by (simp_all add: envAllFail_def exampleEnv_def res_ok_def)
  show ?thesis
    using brregCache_write_through[OF orgnrRow_valid(1,2), of emptyState envAllFail _ _ 500 None 500 None]
      d f
    by (simp add: orgnrRow_valid(3))
qed

section \<open>Geocoding\<close>

lemma envAllFail_geocode:
  "geocodeKartverket envAllFail q tr = Inr (None, tr @ [Fetch (KARTVERKET_SOK q)])"
  by (simp add: geocodeKartverket_def envAllFail_def exampleEnv_def res_ok_def)

lemma envAllFail_body:
  assumes "main_4a envAllFail r s = Inr ((None, Some ''Storgata 1, 0150, Oslo'', MAT), s)"
    and "geocodeCache s ''Storgata 1, 0150, Oslo'' = None"
  shows "main_body envAllFail r s =
     Inr (s\<lparr>geocodeAttempts := geocodeAttempts s + 1,
            trace := trace s @ [Fetch (KARTVERKET_SOK ''Storgata 1 0150 Oslo''), Sleep (Fin 80)]\<rparr>)"
proof -
  have "main_4b envAllFail ''Storgata 1, 0150, Oslo'' s =
     Inr (None, s\<lparr>geocodeAttempts := geocodeAttempts s + 1,
            trace := (trace s @ [Fetch (KARTVERKET_SOK ''Storgata 1 0150 Oslo'')]) @ [Sleep (GEOCODE_DELAY_MS envAllFail)]\<rparr>)"
    using assms(2)
    by (intro main_4b_null) (simp_all add: storgata_query envAllFail_geocode readCache_None storgata_not_inherited)
  then show ?thesis
    using main_body_no_point[OF assms(1)]
    by (simp add: envAllFail_def exampleEnv_def)
qed

lemma constructor_body:
  assumes "geocodeCache s ''constructor'' = None"
  shows "main_body env (constructorRow k) s =
     Inr (s\<lparr>features := features s @ [makeFeature (constructorRow k) None ''constructor'' MAT (Inherited ''constructor'')]\<rparr>)"
proof -
  have "main_4b env ''constructor'' s = Inr (Some (Inherited ''constructor''), s)"
    using assms constructor_inherited by (rule main_4b_inherited)
  with constructor_4a show ?thesis by (rule main_body_feature)
qed

text \<open>
  Claim C7, as the code has it. The claim says that two rows with the same address make
  exactly one geocoding request. A failed request is not cached: when Kartverket answers
  with status 500, two places with the address \<open>"Storgata 1, 0150, Oslo"\<close> make two
  requests and sleep twice. And the lookup in the cache object finds an inherited member
  for an address such as \<open>"constructor"\<close>: two places with that address make no request
  at all, although Kartverket would answer. In both runs the two rows are what the
  reduction to the latest row per place passes on.
\<close>

theorem geocode_failure_refetched_counterexample:
  "latestRows [storgataRow ''2'', naboRow ''2''] = [storgataRow ''2'', naboRow ''2'']
   \<and> buildMatAdresseFallback (storgataRow ''2'') = ''Storgata 1, 0150, Oslo''
   \<and> buildMatAdresseFallback (naboRow ''2'') = ''Storgata 1, 0150, Oslo''
   \<and> map_sum id trace (main_loop envAllFail (latestRows [storgataRow ''2'', naboRow ''2'']) emptyState)
     = Inr [Fetch (KARTVERKET_SOK ''Storgata 1 0150 Oslo''), Sleep (Fin 80),
            Fetch (KARTVERKET_SOK ''Storgata 1 0150 Oslo''), Sleep (Fin 80)]
   \<and> latestRows [constructorRow ''4'', constructorRow ''5''] = [constructorRow ''4'', constructorRow ''5'']
   \<and> buildMatAdresseFallback (constructorRow ''4'') = ''constructor''
   \<and> buildMatAdresseFallback (constructorRow ''5'') = ''constructor''
   \<and> map_sum id trace (main_loop envBothAnswer (latestRows [constructorRow ''4'', constructorRow ''5'']) emptyState)
     = Inr []"
proof -
  have l1: "latestRows [storgataRow ''2'', naboRow ''2''] = [storgataRow ''2'', naboRow ''2'']"
    by (rule latestRows_two) (simp_all add: example_rows_ok)
  have l2: "latestRows [constructorRow ''4'', constructorRow ''5''] = [constructorRow ''4'', constructorRow ''5'']"
    by (rule latestRows_two) (simp_all add: example_rows_ok)
  have t1: "map_sum id trace (main_loop envAllFail [storgataRow ''2'', naboRow ''2''] emptyState)
     = Inr [Fetch (KARTVERKET_SOK ''Storgata 1 0150 Oslo''), Sleep (Fin 80),
            Fetch (KARTVERKET_SOK ''Storgata 1 0150 Oslo''), Sleep (Fin 80)]"
    by (simp add: envAllFail_body[OF storgata_4a] envAllFail_body[OF nabo_4a] emptyState_def)
  have t2: "map_sum id trace (main_loop envBothAnswer [constructorRow ''4'', constructorRow ''5''] emptyState)
     = Inr []"
    by (simp add: constructor_body emptyState_def)
  from l1 l2 t1 t2 show ?thesis
    by (simp add: storgata_address nabo_address constructor_address)
qed

text \<open>
  Claim C7, amended. For an address that is neither a key of the geocode cache nor the
  name of a member every object inherits, a geocoding that gives coordinates makes
  exactly one request followed by one delay and stores the coordinates under the address.
  Once step 4b has given the coordinates of an address, from the cache or from such a
  request, then whatever rows are processed in between, a row that resolves to the same
  address string gets the stored coordinates with no request, no delay and no other
  change of the state, and its feature is emitted.
\<close>

theorem geocode_cached_once:
  "(geocodeCache s a = None \<and> a \<notin> set objectPrototype \<and> main_4b env a s = Inr (Some v, s1) \<longrightarrow>
       (\<exists>g. v = Point g \<and> geocodeCache s1 a = Some g)
       \<and> trace s1 = trace s @ [Fetch (KARTVERKET_SOK (normalizeQuery a)), Sleep (GEOCODE_DELAY_MS env)])
   \<and> (main_4b env a s = Inr (Some (Point g), s1) \<and> main_loop env rows s1 = Inr s2 \<longrightarrow>
       main_4b env a s2 = Inr (Some (Point g), s2))
   \<and> (main_4b env a s = Inr (Some (Point g), s1) \<and> main_loop env rows s1 = Inr s2
        \<and> main_4a env r s2 = Inr ((orgnr, Some a, kilde), s3) \<longrightarrow>
       main_4b env a s3 = Inr (Some (Point g), s3)
       \<and> main_body env r s2 = Inr (s3\<lparr>features := features s3 @ [makeFeature r orgnr a kilde (Point g)]\<rparr>)
       \<and> (\<forall>q. Fetch (KARTVERKET_SOK q) \<notin> set (drop (length (trace s2)) (trace s3))))"
proof (intro conjI impI allI)
  assume a: "geocodeCache s a = None \<and> a \<notin> set objectPrototype \<and> main_4b env a s = Inr (Some v, s1)"
  then have n: "readCache (geocodeCache s) a = None" and m: "main_4b env a s = Inr (Some v, s1)"
    by (simp_all add: readCache_None)
  from n m obtain geo where geo: "Some v = map_option Point geo"
    "trace s1 = trace s @ [Fetch (KARTVERKET_SOK (normalizeQuery a)), Sleep (GEOCODE_DELAY_MS env)]"
    "geocodeCache s1 = (case geo of None \<Rightarrow> geocodeCache s | Some g \<Rightarrow> (geocodeCache s)(a \<mapsto> g))"
    by (rule main_4b_miss)
  from geo(1) obtain g where "geo = Some g" "v = Point g" by (cases geo) auto
  then show "\<exists>g. v = Point g \<and> geocodeCache s1 a = Some g" using geo(3) by simp
  show "trace s1 = trace s @ [Fetch (KARTVERKET_SOK (normalizeQuery a)), Sleep (GEOCODE_DELAY_MS env)]"
    by (rule geo(2))
next
  assume a: "main_4b env a s = Inr (Some (Point g), s1) \<and> main_loop env rows s1 = Inr s2"
  then have "geocodeCache s1 a = Some g" using main_4b_frame[of env a s "Some (Point g)" s1 g] by simp
  then have "geocodeCache s2 a = Some g" using main_loop_frame[of env rows s1 s2] a by simp
  then show "main_4b env a s2 = Inr (Some (Point g), s2)" by (rule main_4b_hit)
next
  assume a: "main_4b env a s = Inr (Some (Point g), s1) \<and> main_loop env rows s1 = Inr s2
        \<and> main_4a env r s2 = Inr ((orgnr, Some a, kilde), s3)"
  then have "geocodeCache s1 a = Some g" using main_4b_frame[of env a s "Some (Point g)" s1 g] by simp
  then have "geocodeCache s2 a = Some g" using main_loop_frame[of env rows s1 s2] a by simp
  then have "geocodeCache s3 a = Some g" using main_4a_frame[of env r s2 orgnr "Some a" kilde s3] a by simp
  then show b: "main_4b env a s3 = Inr (Some (Point g), s3)" by (rule main_4b_hit)
  from a b show "main_body env r s2 = Inr (s3\<lparr>features := features s3 @ [makeFeature r orgnr a kilde (Point g)]\<rparr>)"
    by (simp add: main_body_feature)
  fix q
  from a obtain new where "trace s3 = trace s2 @ new" "\<forall>q. Fetch (KARTVERKET_SOK q) \<notin> set new"
    using main_4a_frame[of env r s2 orgnr "Some a" kilde s3] by blast
  then show "Fetch (KARTVERKET_SOK q) \<notin> set (drop (length (trace s2)) (trace s3))" by simp
qed

lemma envBothAnswer_geocode:
  "geocodeKartverket envBothAnswer q tr
     = Inr (Some \<lparr>lon = Fin (107 / 10), lat = Fin (599 / 10)\<rparr>, tr @ [Fetch (KARTVERKET_SOK q)])"
  by (simp add: geocodeKartverket_def envBothAnswer_def exampleEnv_def res_ok_def
      extractLngLatFromKartverket_def pointPayload_def)

lemma envBothAnswer_4b:
  assumes "geocodeCache s a = None" "a \<notin> set objectPrototype"
  shows "main_4b envBothAnswer a s =
     Inr (Some (Point \<lparr>lon = Fin (107 / 10), lat = Fin (599 / 10)\<rparr>),
          s\<lparr>geocodeAttempts := geocodeAttempts s + 1,
            geocodeCache := (geocodeCache s)(a \<mapsto> \<lparr>lon = Fin (107 / 10), lat = Fin (599 / 10)\<rparr>),
            geocodeHits := geocodeHits s + 1,
            trace := trace s @ [Fetch (KARTVERKET_SOK (normalizeQuery a)), Sleep (Fin 80)]\<rparr>)"
proof -
  have "readCache (geocodeCache s) a = None" using assms by (simp add: readCache_None)
  then show ?thesis
    using main_4b_point[OF _ envBothAnswer_geocode, of s a]
    by (simp add: envBothAnswer_def exampleEnv_def)
qed

theorem geocode_cached_once_witness:
  "latestRows [storgataRow ''2'', naboRow ''1''] = [storgataRow ''2'', naboRow ''1'']
   \<and> map_sum id trace (main_loop envBothAnswer (latestRows [storgataRow ''2'', naboRow ''1'']) emptyState)
     = Inr [Fetch (KARTVERKET_SOK ''Storgata 1 0150 Oslo''), Sleep (Fin 80)]"
proof -
  let ?a = "''Storgata 1, 0150, Oslo''"
  let ?g = "\<lparr>lon = Fin (107 / 10), lat = Fin (599 / 10)\<rparr>"
  define s1 where "s1 = emptyState\<lparr>geocodeAttempts := geocodeAttempts emptyState + 1,
            geocodeCache := (geocodeCache emptyState)(?a \<mapsto> ?g),
            geocodeHits := geocodeHits emptyState + 1,
            trace := trace emptyState @ [Fetch (KARTVERKET_SOK (normalizeQuery ?a)), Sleep (Fin 80)]\<rparr>"
  define s1' where "s1' = s1\<lparr>features := features s1 @ [makeFeature (storgataRow ''2'') None ?a MAT (Point ?g)]\<rparr>"
  have l: "latestRows [storgataRow ''2'', naboRow ''1''] = [storgataRow ''2'', naboRow ''1'']"
    by (rule latestRows_two) (simp_all add: example_rows_ok)
  have n: "geocodeCache emptyState ?a = None" by (simp add: emptyState_def)
  have b1: "main_4b envBothAnswer ?a emptyState = Inr (Some (Point ?g), s1)"
    unfolding s1_def using n storgata_not_inherited by (rule envBothAnswer_4b)
  have stored: "\<exists>g. Point ?g = Point g \<and> geocodeCache s1 ?a = Some g"
    using geocode_cached_once[of emptyState ?a envBothAnswer "Point ?g" s1] n storgata_not_inherited b1
    by blast
  have body1: "main_body envBothAnswer (storgataRow ''2'') emptyState = Inr s1'"
    unfolding s1'_def using storgata_4a b1 by (rule main_body_feature)
  have hit: "main_4b envBothAnswer ?a s1' = Inr (Some (Point ?g), s1')"
    using stored by (intro main_4b_hit) (simp add: s1'_def)
  have l0: "main_loop envBothAnswer [] s1' = Inr s1'" by simp
  have "main_4b envBothAnswer ?a s1' = Inr (Some (Point ?g), s1')
       \<and> main_body envBothAnswer (naboRow ''1'') s1'
           = Inr (s1'\<lparr>features := features s1' @ [makeFeature (naboRow ''1'') None ?a MAT (Point ?g)]\<rparr>)"
    using geocode_cached_once[of s1' ?a envBothAnswer _ s1' ?g "[]" s1' "naboRow ''1''" None MAT s1']
      hit l0 nabo_4a[of envBothAnswer "''1''" s1']
    by simp
  then have "map_sum id trace (main_loop envBothAnswer [storgataRow ''2'', naboRow ''1''] emptyState)
     = Inr [Fetch (KARTVERKET_SOK ''Storgata 1 0150 Oslo''), Sleep (Fin 80)]"
    using body1 by (simp add: s1'_def s1_def emptyState_def storgata_query)
  with l show ?thesis by simp
qed


lemma extract_Some:
  assumes "wellFormedPoint payload"
  shows "\<exists>g. extractLngLatFromKartverket payload = Inr (Some g)"
proof -
  from assms obtain rkvs where "firstResult payload = Some (JObj rkvs)"
    by (auto simp: wellFormedPoint_def split: option.splits jsval.splits)
  then show ?thesis using assms by (simp add: extract_cases)
qed

lemma envNotJson_facts:
  "fetch_kartverket envNotJson n q = Response 200 None" "res_ok 200"
  by (simp_all add: envNotJson_def exampleEnv_def res_ok_def)

text \<open>
  Claim C8, as the code has it. The claim says that every 2xx response without a
  well-formed representative point gives null and drops the record. A 2xx response whose
  body is not JSON makes \<^verbatim>\<open>res.json()\<close> throw: the result is not null, and the run
  ends with the exception instead of going on to the next row. So does a 2xx response
  whose first result is \<^verbatim>\<open>null\<close>, where reading the point throws a TypeError.
\<close>

theorem geocode_not_json_counterexample:
  "main_4a envNotJson (storgataRow ''2'') emptyState
     = Inr ((None, Some ''Storgata 1, 0150, Oslo'', MAT), emptyState)
   \<and> readCache (geocodeCache emptyState) ''Storgata 1, 0150, Oslo'' = None
   \<and> fetch_kartverket envNotJson 0 (KARTVERKET_SOK (normalizeQuery ''Storgata 1, 0150, Oslo'')) = Response 200 None
   \<and> res_ok 200
   \<and> main_4b envNotJson ''Storgata 1, 0150, Oslo'' emptyState = Inl SyntaxError
   \<and> main_body envNotJson (storgataRow ''2'') emptyState = Inl SyntaxError
   \<and> main_loop envNotJson [storgataRow ''2''] emptyState = Inl SyntaxError
   \<and> fetch_kartverket envNullResult 0 (KARTVERKET_SOK (normalizeQuery ''Storgata 1, 0150, Oslo''))
       = Response 200 (Some (JObj [(''adresser'', JArr [JNull])]))
   \<and> \<not> wellFormedPoint (JObj [(''adresser'', JArr [JNull])])
   \<and> main_body envNullResult (storgataRow ''2'') emptyState = Inl TypeError"
proof -
  have n: "readCache (geocodeCache emptyState) ''Storgata 1, 0150, Oslo'' = None"
    by (simp add: readCache_None emptyState_def storgata_not_inherited)
  have g2: "geocodeKartverket envNullResult q tr = Inl TypeError" for q tr
    by (simp add: geocodeKartverket_def envNullResult_def exampleEnv_def res_ok_def
        extractLngLatFromKartverket_def)
  have "main_4b envNullResult ''Storgata 1, 0150, Oslo'' emptyState = Inl TypeError"
    using n g2 by (rule main_4b_error)
  with storgata_4a have body2: "main_body envNullResult (storgataRow ''2'') emptyState = Inl TypeError"
    by (rule main_body_error)
  have w: "\<not> wellFormedPoint (JObj [(''adresser'', JArr [JNull])])"
    "fetch_kartverket envNullResult 0 (KARTVERKET_SOK (normalizeQuery ''Storgata 1, 0150, Oslo''))
       = Response 200 (Some (JObj [(''adresser'', JArr [JNull])]))"
    by (simp_all add: wellFormedPoint_def firstResult_def envNullResult_def exampleEnv_def)
  have g: "geocodeKartverket envNotJson q tr = Inl SyntaxError" for q tr
    by (rule geocodeKartverket_not_json[OF envNotJson_facts])
  have b: "main_4b envNotJson ''Storgata 1, 0150, Oslo'' emptyState = Inl SyntaxError"
    using n g by (rule main_4b_error)
  have body: "main_body envNotJson (storgataRow ''2'') emptyState = Inl SyntaxError"
    using storgata_4a b by (rule main_body_error)
  show ?thesis
    using storgata_4a[of envNotJson "''2''" emptyState] n envNotJson_facts b body body2 w by simp
qed

text \<open>
  Claim C8, amended. For a row with a resolved address for which the lookup in the
  geocode cache finds nothing, so that a geocoding attempt is made (the address is
  neither a key of the cache nor the name of a member every object inherits): when the
  response is not 2xx, or is 2xx with a JSON body that has no well-formed representative
  point and whose first result is not null, the result is null, no feature is emitted for
  the row and the geocode cache is unchanged (it has no entry for the address); when the
  response is 2xx with a well-formed point, the coordinates are stored under the address;
  when the response is 2xx and the body is not JSON, the run ends with the exception.
\<close>

theorem geocode_failure_dropped_uncached:
  assumes "main_4a env r s = Inr ((orgnr, Some a, kilde), s1)"
    and "geocodeCache s1 a = None" and "a \<notin> set objectPrototype"
    and "fetch_kartverket env (length (trace s1)) (KARTVERKET_SOK (normalizeQuery a)) = Response st b"
  shows "(\<not> res_ok st \<or> (\<exists>payload. b = Some payload \<and> \<not> wellFormedPoint payload
              \<and> firstResult payload \<noteq> Some JNull \<and> firstResult payload \<noteq> Some JUndefined) \<longrightarrow>
           (\<exists>s2. main_4b env a s1 = Inr (None, s2) \<and> main_body env r s = Inr s2
              \<and> features s2 = features s \<and> geocodeCache s2 = geocodeCache s \<and> geocodeCache s2 a = None
              \<and> trace s2 = trace s1 @ [Fetch (KARTVERKET_SOK (normalizeQuery a)), Sleep (GEOCODE_DELAY_MS env)]))
     \<and> (res_ok st \<and> (\<exists>payload. b = Some payload \<and> wellFormedPoint payload) \<longrightarrow>
           (\<exists>g s2. main_4b env a s1 = Inr (Some (Point g), s2) \<and> geocodeCache s2 = (geocodeCache s)(a \<mapsto> g)))
     \<and> (res_ok st \<and> b = None \<longrightarrow> main_body env r s = Inl SyntaxError)"
proof (intro conjI impI)
  note fa = main_4a_frame[OF assms(1)]
  have miss: "readCache (geocodeCache s1) a = None" using assms(2,3) by (simp add: readCache_None)
  assume f: "\<not> res_ok st \<or> (\<exists>payload. b = Some payload \<and> \<not> wellFormedPoint payload
              \<and> firstResult payload \<noteq> Some JNull \<and> firstResult payload \<noteq> Some JUndefined)"
  have k: "geocodeKartverket env (normalizeQuery a) (trace s1)
      = Inr (None, trace s1 @ [Fetch (KARTVERKET_SOK (normalizeQuery a))])"
    using assms(4) f by (rule geocodeKartverket_null)
  define s2 where "s2 = s1\<lparr>geocodeAttempts := geocodeAttempts s1 + 1,
      trace := (trace s1 @ [Fetch (KARTVERKET_SOK (normalizeQuery a))]) @ [Sleep (GEOCODE_DELAY_MS env)]\<rparr>"
  have b: "main_4b env a s1 = Inr (None, s2)"
    unfolding s2_def using miss k by (rule main_4b_null)
  have body: "main_body env r s = Inr s2"
    using assms(1) b by (rule main_body_no_point)
  have "features s2 = features s" "geocodeCache s2 = geocodeCache s" "geocodeCache s2 a = None"
    "trace s2 = trace s1 @ [Fetch (KARTVERKET_SOK (normalizeQuery a)), Sleep (GEOCODE_DELAY_MS env)]"
    using fa assms(2) by (simp_all add: s2_def)
  with b body show "\<exists>s2. main_4b env a s1 = Inr (None, s2) \<and> main_body env r s = Inr s2
              \<and> features s2 = features s \<and> geocodeCache s2 = geocodeCache s \<and> geocodeCache s2 a = None
              \<and> trace s2 = trace s1 @ [Fetch (KARTVERKET_SOK (normalizeQuery a)), Sleep (GEOCODE_DELAY_MS env)]"
    by blast
next
  note fa = main_4a_frame[OF assms(1)]
  have miss: "readCache (geocodeCache s1) a = None" using assms(2,3) by (simp add: readCache_None)
  assume "res_ok st \<and> (\<exists>payload. b = Some payload \<and> wellFormedPoint payload)"
  then obtain payload where p: "res_ok st" "b = Some payload" "wellFormedPoint payload" by blast
  from extract_Some[OF p(3)] obtain g where g: "extractLngLatFromKartverket payload = Inr (Some g)" by blast
  have k: "geocodeKartverket env (normalizeQuery a) (trace s1)
      = Inr (Some g, trace s1 @ [Fetch (KARTVERKET_SOK (normalizeQuery a))])"
    using assms(4) p g by (simp add: geocodeKartverket_def)
  have "\<exists>s2. main_4b env a s1 = Inr (Some (Point g), s2) \<and> geocodeCache s2 = (geocodeCache s1)(a \<mapsto> g)"
    using main_4b_point[OF miss k] by simp
  then show "\<exists>g s2. main_4b env a s1 = Inr (Some (Point g), s2) \<and> geocodeCache s2 = (geocodeCache s)(a \<mapsto> g)"
    using fa by auto
next
  have miss: "readCache (geocodeCache s1) a = None" using assms(2,3) by (simp add: readCache_None)
  assume "res_ok st \<and> b = None"
  then have "geocodeKartverket env (normalizeQuery a) (trace s1) = Inl SyntaxError"
    using assms(4) by (intro geocodeKartverket_not_json) auto
  with miss have "main_4b env a s1 = Inl SyntaxError"
    by (rule main_4b_error)
  with assms(1) show "main_body env r s = Inl SyntaxError" by (rule main_body_error)
qed

theorem geocode_failure_dropped_uncached_witness:
  "main_body envAllFail (storgataRow ''2'') emptyState
     = Inr (emptyState\<lparr>geocodeAttempts := 1,
              trace := [Fetch (KARTVERKET_SOK ''Storgata 1 0150 Oslo''), Sleep (Fin 80)]\<rparr>)"
proof -
  have n: "geocodeCache emptyState ''Storgata 1, 0150, Oslo'' = None" by (simp add: emptyState_def)
  have r: "fetch_kartverket envAllFail (length (trace emptyState))
      (KARTVERKET_SOK (normalizeQuery ''Storgata 1, 0150, Oslo'')) = Response 500 None" "\<not> res_ok 500"
    by (simp_all add: envAllFail_def exampleEnv_def res_ok_def)
  from geocode_failure_dropped_uncached[OF storgata_4a n storgata_not_inherited r(1)] r(2)
  obtain s2 where s2: "main_4b envAllFail ''Storgata 1, 0150, Oslo'' emptyState = Inr (None, s2)"
    "main_body envAllFail (storgataRow ''2'') emptyState = Inr s2"
    by blast
  have miss: "readCache (geocodeCache emptyState) ''Storgata 1, 0150, Oslo'' = None"
    using n storgata_not_inherited by (simp add: readCache_None)
  have "main_4b envAllFail ''Storgata 1, 0150, Oslo'' emptyState
      = Inr (None, emptyState\<lparr>geocodeAttempts := 1,
              trace := [Fetch (KARTVERKET_SOK ''Storgata 1 0150 Oslo''), Sleep (Fin 80)]\<rparr>)"
    using main_4b_null[OF miss envAllFail_geocode]
    by (simp add: storgata_query emptyState_def envAllFail_def exampleEnv_def)
  with s2 show ?thesis by simp
qed

section \<open>Emitted features\<close>

lemma not_int_5_2: "(5 / 2 :: rat) \<notin> \<int>"
proof
  assume "(5 / 2 :: rat) \<in> \<int>"
  then obtain z :: int where "(5 / 2 :: rat) = of_int z" by (auto elim: Ints_cases)
  then have "(of_int 5 :: rat) = of_int (2 * z)" by simp
  then have "5 = 2 * z" by (simp only: of_int_eq_iff)
  then show False by presburger
qed

lemma storgata_fields:
  "total_karakter (storgataRow k) = k" "tilsynsobjektid (storgataRow k) = ''1''"
  "navn (storgataRow k) = ''Kafe''" "dato (storgataRow k) = ''01012024''" "status (storgataRow k) = None"
  by (simp_all add: storgataRow_def exampleRow_def)

lemma envBothAnswer_storgata_body:
  "main_body envBothAnswer (storgataRow k) emptyState = Inr
     (emptyState\<lparr>geocodeAttempts := 1,
        geocodeCache := [''Storgata 1, 0150, Oslo'' \<mapsto> \<lparr>lon = Fin (107 / 10), lat = Fin (599 / 10)\<rparr>],
        geocodeHits := 1,
        trace := [Fetch (KARTVERKET_SOK ''Storgata 1 0150 Oslo''), Sleep (Fin 80)],
        features := [makeFeature (storgataRow k) None ''Storgata 1, 0150, Oslo'' MAT
                       (Point \<lparr>lon = Fin (107 / 10), lat = Fin (599 / 10)\<rparr>)]\<rparr>)"
proof -
  have n: "geocodeCache emptyState ''Storgata 1, 0150, Oslo'' = None" by (simp add: emptyState_def)
  show ?thesis
    using main_body_feature[OF storgata_4a envBothAnswer_4b[OF n storgata_not_inherited], of k]
    by (simp add: emptyState_def storgata_query)
qed

text \<open>
  Claim C9, as the code has it. The claim says that an emitted feature carries the rating
  parsed as an integer, with \<open>-1\<close> for a rating that does not parse, and that a feature
  is emitted exactly when an address and coordinates were obtained. The rating is
  converted with \<^verbatim>\<open>Number\<close> and kept when finite: the text \<open>"2.5"\<close> is emitted as
  \<open>2.5\<close>, and the empty text, which is no number, is emitted as \<open>0\<close>. And for the
  address \<open>"constructor"\<close> the lookup in the cache object gives an inherited member: the
  feature is emitted with undefined coordinates and without any request, although no
  coordinates were obtained.
\<close>

theorem feature_noninteger_counterexample:
  "map_sum id (\<lambda>s. map (\<lambda>f. p_karakter (properties f)) (features s))
      (main_body envBothAnswer (storgataRow ''2.5'') emptyState) = Inr [Fin (5 / 2)]
   \<and> (5 / 2 :: rat) \<notin> \<int>
   \<and> map_sum id (\<lambda>s. map (\<lambda>f. p_karakter (properties f)) (features s))
      (main_body envBothAnswer (storgataRow []) emptyState) = Inr [Fin 0]
   \<and> map_sum id (\<lambda>s. (map coordinates (features s), trace s))
      (main_body envBothAnswer (constructorRow ''4'') emptyState) = Inr ([[JUndefined, JUndefined]], [])"
proof -
  have 1: "map_sum id (\<lambda>s. map (\<lambda>f. p_karakter (properties f)) (features s))
      (main_body envBothAnswer (storgataRow ''2.5'') emptyState) = Inr [Fin (5 / 2)]"
    by (simp add: envBothAnswer_storgata_body makeFeature_def storgata_fields Number_str_2_5)
  have 2: "map_sum id (\<lambda>s. map (\<lambda>f. p_karakter (properties f)) (features s))
      (main_body envBothAnswer (storgataRow []) emptyState) = Inr [Fin 0]"
    by (simp add: envBothAnswer_storgata_body makeFeature_def storgata_fields Number_str_eval_more)
  have 3: "map_sum id (\<lambda>s. (map coordinates (features s), trace s))
      (main_body envBothAnswer (constructorRow ''4'') emptyState) = Inr ([[JUndefined, JUndefined]], [])"
    by (simp add: constructor_body emptyState_def makeFeature_def Let_def)
  from 1 2 3 not_int_5_2 show ?thesis by simp
qed

text \<open>
  Claim C9, amended. Given the outcome of step 4a for a row: without an address the row is
  dropped with no geocoding attempt (no request to Kartverket, no change of the attempt
  counter); with an address and no coordinates the row is dropped; with an address and
  coordinates one feature is appended, carrying the coordinates, the row's fields, the
  address and its source, and, when the rating text is not blank, the rating converted
  with \<^verbatim>\<open>Number\<close> if that is finite and \<open>-1\<close> otherwise. So a completed turn of the
  loop emits a feature exactly when both an address and coordinates were obtained, for
  every address that is a key of the geocode cache or is not the name of a member every
  object inherits.
\<close>

theorem feature_iff_address_and_point:
  assumes "main_4a env r s = Inr ((orgnr, best, kilde), s1)"
  shows "(best = None \<longrightarrow>
            main_body env r s = Inr s1 \<and> features s1 = features s
            \<and> geocodeAttempts s1 = geocodeAttempts s
            \<and> (\<forall>q. Fetch (KARTVERKET_SOK q) \<notin> set (drop (length (trace s)) (trace s1))))
     \<and> (best = Some a \<and> main_4b env a s1 = Inr (None, s2) \<longrightarrow>
            main_body env r s = Inr s2 \<and> features s2 = features s)
     \<and> (best = Some a \<and> main_4b env a s1 = Inr (Some (Point g), s2) \<longrightarrow>
            (\<exists>f. main_body env r s = Inr (s2\<lparr>features := features s @ [f]\<rparr>)
               \<and> coordinates f = [JNum (lon g), JNum (lat g)]
               \<and> p_tilsynsobjektid (properties f) = tilsynsobjektid r
               \<and> p_orgnummer (properties f) = orgnr
               \<and> p_navn (properties f) = navn r
               \<and> p_adresse (properties f) = a
               \<and> p_dato (properties f) = dato r
               \<and> p_status (properties f) = status r
               \<and> p_adressekilde (properties f) = kilde
               \<and> (trim (total_karakter r) \<noteq> [] \<longrightarrow>
                    p_karakter (properties f) =
                      (if isFinite (Number_str (total_karakter r)) then Number_str (total_karakter r)
                       else Fin (- 1)))))
     \<and> (main_body env r s = Inr s'
          \<and> (\<forall>a'. best = Some a' \<longrightarrow> geocodeCache s1 a' \<noteq> None \<or> a' \<notin> set objectPrototype) \<longrightarrow>
            (features s' \<noteq> features s
               \<longleftrightarrow> (\<exists>a' g' s2'. best = Some a' \<and> main_4b env a' s1 = Inr (Some (Point g'), s2'))))"
proof (intro conjI impI)
  note fa = main_4a_frame[OF assms]
  assume n: "best = None"
  show "main_body env r s = Inr s1" using assms n by (simp add: main_body_no_address)
  show "features s1 = features s" "geocodeAttempts s1 = geocodeAttempts s" using fa by simp_all
  from fa obtain new where "trace s1 = trace s @ new" "\<forall>q. Fetch (KARTVERKET_SOK q) \<notin> set new" by blast
  then show "\<forall>q. Fetch (KARTVERKET_SOK q) \<notin> set (drop (length (trace s)) (trace s1))" by simp
next
  assume a: "best = Some a \<and> main_4b env a s1 = Inr (None, s2)"
  then show "main_body env r s = Inr s2" using assms by (simp add: main_body_no_point)
  from a have m: "main_4b env a s1 = Inr (None, s2)" by simp
  show "features s2 = features s"
    using main_4a_4b_frame[OF assms m] by simp
next
  assume a: "best = Some a \<and> main_4b env a s1 = Inr (Some (Point g), s2)"
  from a have m: "main_4b env a s1 = Inr (Some (Point g), s2)" by simp
  have f: "features s2 = features s"
    using main_4a_4b_frame[OF assms m] by simp
  have "main_body env r s = Inr (s2\<lparr>features := features s2 @ [makeFeature r orgnr a kilde (Point g)]\<rparr>)"
    using assms a by (simp add: main_body_feature)
  then have "main_body env r s = Inr (s2\<lparr>features := features s @ [makeFeature r orgnr a kilde (Point g)]\<rparr>)"
    by (simp only: f)
  then show "\<exists>f. main_body env r s = Inr (s2\<lparr>features := features s @ [f]\<rparr>)
               \<and> coordinates f = [JNum (lon g), JNum (lat g)]
               \<and> p_tilsynsobjektid (properties f) = tilsynsobjektid r
               \<and> p_orgnummer (properties f) = orgnr
               \<and> p_navn (properties f) = navn r
               \<and> p_adresse (properties f) = a
               \<and> p_dato (properties f) = dato r
               \<and> p_status (properties f) = status r
               \<and> p_adressekilde (properties f) = kilde
               \<and> (trim (total_karakter r) \<noteq> [] \<longrightarrow>
                    p_karakter (properties f) =
                      (if isFinite (Number_str (total_karakter r)) then Number_str (total_karakter r)
                       else Fin (- 1)))"
    by (intro exI[of _ "makeFeature r orgnr a kilde (Point g)"]) (simp add: makeFeature_def Let_def)
next
  assume b: "main_body env r s = Inr s'
          \<and> (\<forall>a'. best = Some a' \<longrightarrow> geocodeCache s1 a' \<noteq> None \<or> a' \<notin> set objectPrototype)"
  then have body: "main_body env r s = Inr s'"
    and own: "\<forall>a'. best = Some a' \<longrightarrow> geocodeCache s1 a' \<noteq> None \<or> a' \<notin> set objectPrototype"
    by simp_all
  show "features s' \<noteq> features s \<longleftrightarrow> (\<exists>a' g' s2'. best = Some a' \<and> main_4b env a' s1 = Inr (Some (Point g'), s2'))"
    using body
  proof (cases rule: main_body_cases)
    case (no_address orgnr' kilde')
    then have "best = None" "features s' = features s"
      using assms main_4a_frame[OF no_address] by simp_all
    then show ?thesis by simp
  next
    case (no_point orgnr' a' kilde' s1')
    then have e: "best = Some a'" "s1' = s1" using assms by simp_all
    have "features s' = features s" using main_4a_4b_frame[OF no_point] by simp
    then show ?thesis using e no_point(2) by simp
  next
    case (feature orgnr' a' kilde' s1' v s2')
    then have e: "best = Some a'" "s1' = s1" using assms by simp_all
    have "features s2' = features s" using main_4a_4b_frame[OF feature(1,2)] by simp
    then have changed: "features s' \<noteq> features s" using feature(3) by simp
    have "\<not> (readCache (geocodeCache s1) a' = Some (Inherited a'))"
      using own e(1) by (auto simp: readCache_def split: option.splits)
    then obtain g' where "v = Point g'"
      using main_4b_Some_cases[OF feature(2)] e(2) by blast
    then show ?thesis using changed e feature(2) by auto
  qed
qed

theorem feature_iff_address_and_point_witness:
  "main_body envAllFail (orgnrRow '' 123456789 '') emptyState
     = Inr (emptyState\<lparr>brregLookups := 1, brregCache := [''123456789'' \<mapsto> None],
              trace := [Fetch (BRREG_UNDERENHET ''123456789''), Fetch (BRREG_ENHET ''123456789''), Sleep (Fin 30)]\<rparr>)
   \<and> map_sum id (\<lambda>s. map (\<lambda>f. (coordinates f, p_adresse (properties f), p_karakter (properties f))) (features s))
       (main_body envBothAnswer (storgataRow ''3'') emptyState)
     = Inr [([JNum (Fin (107 / 10)), JNum (Fin (599 / 10))], ''Storgata 1, 0150, Oslo'', Fin 3)]"
proof -
  have v: "isValidOrgnr (orgnummer (orgnrRow '' 123456789 ''))"
    "orgnummer (orgnrRow '' 123456789 '') = Some '' 123456789 ''" "trim '' 123456789 '' = ''123456789''"
    by (simp_all add: orgnrRow_def exampleRow_def isValidOrgnr_def trim_def isWhiteSpace_def isDigit_def)
  have fb: "fetchBrregEntity envAllFail ''123456789'' []
      = Inr (None, [Fetch (BRREG_UNDERENHET ''123456789''), Fetch (BRREG_ENHET ''123456789'')])"
    by (simp add: fetchBrregEntity_def fetchJsonOrNull_def envAllFail_def exampleEnv_def res_ok_def hasOrgnr_def)
  have no: "buildMatAdresseFallback (orgnrRow '' 123456789 '') = []"
    by (simp add: buildMatAdresseFallback_def orgnrRow_def exampleRow_def filterBoolean_def trim_def)
  have a: "main_4a envAllFail (orgnrRow '' 123456789 '') emptyState
     = Inr ((Some ''123456789'', None, MAT),
            emptyState\<lparr>brregLookups := 1, brregCache := [''123456789'' \<mapsto> None],
              trace := [Fetch (BRREG_UNDERENHET ''123456789''), Fetch (BRREG_ENHET ''123456789''), Sleep (Fin 30)]\<rparr>)"
    using v by (simp add: main_4a_def Let_def brregLookup_def fb no emptyState_def)
               (simp add: envAllFail_def exampleEnv_def)
  have 1: "main_body envAllFail (orgnrRow '' 123456789 '') emptyState
     = Inr (emptyState\<lparr>brregLookups := 1, brregCache := [''123456789'' \<mapsto> None],
              trace := [Fetch (BRREG_UNDERENHET ''123456789''), Fetch (BRREG_ENHET ''123456789''), Sleep (Fin 30)]\<rparr>)"
    using feature_iff_address_and_point[OF a] by simp
  let ?a = "''Storgata 1, 0150, Oslo''"
  let ?g = "\<lparr>lon = Fin (107 / 10), lat = Fin (599 / 10)\<rparr>"
  have n: "geocodeCache emptyState ?a = None" by (simp add: emptyState_def)
  note b = envBothAnswer_4b[OF n storgata_not_inherited]
  from feature_iff_address_and_point[OF storgata_4a, of envBothAnswer "''3''" emptyState ?a _ ?g] b
  obtain f where f: "main_body envBothAnswer (storgataRow ''3'') emptyState
        = Inr ((emptyState\<lparr>geocodeAttempts := geocodeAttempts emptyState + 1,
            geocodeCache := (geocodeCache emptyState)(?a \<mapsto> ?g),
            geocodeHits := geocodeHits emptyState + 1,
            trace := trace emptyState @ [Fetch (KARTVERKET_SOK (normalizeQuery ?a)), Sleep (Fin 80)]\<rparr>)
              \<lparr>features := features emptyState @ [f]\<rparr>)"
    "coordinates f = [JNum (lon ?g), JNum (lat ?g)]" "p_adresse (properties f) = ?a"
    "trim (total_karakter (storgataRow ''3'')) \<noteq> [] \<longrightarrow>
       p_karakter (properties f) =
         (if isFinite (Number_str (total_karakter (storgataRow ''3''))) then Number_str (total_karakter (storgataRow ''3''))
          else Fin (- 1))"
    by blast
  have "p_karakter (properties f) = Fin 3"
    using f(4) by (simp add: storgata_fields Number_str_eval)
  then have 2: "map_sum id (\<lambda>s. map (\<lambda>f. (coordinates f, p_adresse (properties f), p_karakter (properties f))) (features s))
       (main_body envBothAnswer (storgataRow ''3'') emptyState)
     = Inr [([JNum (Fin (107 / 10)), JNum (Fin (599 / 10))], ''Storgata 1, 0150, Oslo'', Fin 3)]"
    using f(1,2,3) by (simp add: emptyState_def)
  from 1 2 show ?thesis by simp
qed


lemma clientProps_raws: "raws (clientProps q) = replicate 10 JUndefined"
  by (simp add: raws_def clientProps_def numeral_eq_Suc)

lemma clientProps_score:
  assumes "isFinite (p_karakter q)"
  shows "computeSmileScore (clientProps q) =
     (if js_ge (p_karakter q) (Fin 0) \<and> js_le (p_karakter q) (Fin 3) then p_karakter q else Fin (- 1))"
proof -
  have c: "collectCandidates (raws (clientProps q)) [] = []"
    by (simp add: raws_def clientProps_def)
  have k: "toNumberMaybe (karakter (clientProps q)) = Some (p_karakter q)"
    using assms by (simp add: clientProps_def jsonNumber_def)
  show ?thesis by (simp add: computeSmileScore_def c k)
qed

text \<open>
  Claim C10. Every feature a run of the loop emits reaches the client without any of the
  ten per-criterion fields, so the client's score is the fallback: the feature's
  \<^verbatim>\<open>karakter\<close> when it lies in the closed range from 0 to 3, and \<open>-1\<close> otherwise, in
  particular for the pipeline's own \<open>-1\<close>.
\<close>

theorem client_score_of_pipeline_feature:
  assumes "main_loop env rows s = Inr s'"
    and "f \<in> set (drop (length (features s)) (features s'))"
  shows "raws (clientProps (properties f)) = replicate 10 JUndefined
     \<and> computeSmileScore (clientProps (properties f)) =
         (if js_ge (p_karakter (properties f)) (Fin 0) \<and> js_le (p_karakter (properties f)) (Fin 3)
          then p_karakter (properties f) else Fin (- 1))
     \<and> (p_karakter (properties f) = Fin (- 1) \<longrightarrow> computeSmileScore (clientProps (properties f)) = Fin (- 1))"
proof -
  from main_loop_frame[OF assms(1)] obtain fs where
    fs: "features s' = features s @ fs" "\<forall>f\<in>set fs. isFinite (p_karakter (properties f))"
    by blast
  then have "isFinite (p_karakter (properties f))" using assms(2) by simp
  then have sc: "computeSmileScore (clientProps (properties f)) =
         (if js_ge (p_karakter (properties f)) (Fin 0) \<and> js_le (p_karakter (properties f)) (Fin 3)
          then p_karakter (properties f) else Fin (- 1))"
    by (rule clientProps_score)
  have "p_karakter (properties f) = Fin (- 1) \<longrightarrow> computeSmileScore (clientProps (properties f)) = Fin (- 1)"
    by (simp add: sc js_ge_def js_le_def)
  with sc show ?thesis by (simp add: clientProps_raws)
qed

theorem client_score_of_pipeline_feature_witness:
  "computeSmileScore (clientProps (properties
      (makeFeature (storgataRow ''abc'') None ''Storgata 1, 0150, Oslo'' MAT
         (Point \<lparr>lon = Fin (107 / 10), lat = Fin (599 / 10)\<rparr>)))) = Fin (- 1)"
proof -
  let ?a = "''Storgata 1, 0150, Oslo''"
  let ?g = "Point \<lparr>lon = Fin (107 / 10), lat = Fin (599 / 10)\<rparr>"
  define s1 where "s1 = emptyState\<lparr>geocodeAttempts := geocodeAttempts emptyState + 1,
            geocodeCache := (geocodeCache emptyState)(?a \<mapsto> \<lparr>lon = Fin (107 / 10), lat = Fin (599 / 10)\<rparr>),
            geocodeHits := geocodeHits emptyState + 1,
            trace := trace emptyState @ [Fetch (KARTVERKET_SOK (normalizeQuery ?a)), Sleep (Fin 80)]\<rparr>"
  define s1' where "s1' = s1\<lparr>features := features s1 @ [makeFeature (storgataRow ''abc'') None ?a MAT ?g]\<rparr>"
  have n: "geocodeCache emptyState ?a = None" by (simp add: emptyState_def)
  have b1: "main_4b envBothAnswer ?a emptyState = Inr (Some ?g, s1)"
    unfolding s1_def using n storgata_not_inherited by (rule envBothAnswer_4b)
  have body1: "main_body envBothAnswer (storgataRow ''abc'') emptyState = Inr s1'"
    unfolding s1'_def using storgata_4a b1 by (rule main_body_feature)
  then have l: "main_loop envBothAnswer [storgataRow ''abc''] emptyState = Inr s1'" by simp
  have m: "makeFeature (storgataRow ''abc'') None ?a MAT ?g \<in> set (drop (length (features emptyState)) (features s1'))"
    by (simp add: s1'_def s1_def emptyState_def)
  have k: "p_karakter (properties (makeFeature (storgataRow ''abc'') None ?a MAT ?g)) = Fin (- 1)"
    by (simp add: makeFeature_def storgata_fields Number_str_eval)
  show ?thesis
    using client_score_of_pipeline_feature[OF l m] k by simp
qed

end
